theory Spec2Isabelle
  imports Main
begin

section \<open>Python strings\<close>

text \<open>
  A Python \<open>str\<close> is modelled as a \<open>string\<close>; a \<open>char\<close> stands for a code point
  below 256. \<open>isspace\<close> is Python's \<open>str.isspace\<close> on that range, which is the set of
  characters that \<open>str.strip()\<close> removes.
\<close>

definition isspace :: "char \<Rightarrow> bool" where
  "isspace c \<longleftrightarrow> c \<in> set [CHR 0x09, CHR 0x0A, CHR 0x0B, CHR 0x0C, CHR 0x0D,
      CHR 0x1C, CHR 0x1D, CHR 0x1E, CHR 0x1F, CHR 0x20, CHR 0x85, CHR 0xA0]"

definition lstrip :: "string \<Rightarrow> string" where
  "lstrip s = dropWhile isspace s"

definition rstrip :: "string \<Rightarrow> string" where
  "rstrip s = rev (dropWhile isspace (rev s))"

definition strip :: "string \<Rightarrow> string" where
  "strip s = rstrip (lstrip s)"

text \<open>\<open>s.split(sep)\<close> for a one-character separator: one more segment than separators.\<close>

fun split :: "char \<Rightarrow> string \<Rightarrow> string list" where
  "split sep [] = [[]]"
| "split sep (c # cs) =
     (if c = sep then [] # split sep cs
      else (case split sep cs of [] \<Rightarrow> [[c]] | seg # segs \<Rightarrow> (c # seg) # segs))"

text \<open>\<open>sep.join(xs)\<close>.\<close>

fun join :: "string \<Rightarrow> string list \<Rightarrow> string" where
  "join sep [] = []"
| "join sep [x] = x"
| "join sep (x # y # ys) = x @ sep @ join sep (y # ys)"

section \<open>Exceptions\<close>

datatype exn = ValueError string | OtherError string

datatype 'a outcome = Returned 'a | Raised exn

section \<open>The document tree of BeautifulSoup\<close>

text \<open>
  A parsed document is a tree of tags and strings. \<open>NavigableString\<close> stands for the
  string classes that \<open>get_text\<close> collects (NavigableString, CData), \<open>SpecialString\<close> for
  those it skips (comments, declarations, script and style contents). A tag carries an
  object identity of type \<open>'i\<close>, its name, its attributes and its children.
\<close>

type_synonym attrs = "(string \<times> string) list"

datatype 'i node =
    NavigableString string
  | SpecialString string
  | Tag 'i string attrs "'i node list"

fun contents :: "'i node \<Rightarrow> 'i node list" where
  "contents (Tag i n a cs) = cs"
| "contents _ = []"

text \<open>\<open>element.find(name)\<close>: the first tag of that name among the descendants, in
  document order.\<close>

fun find_in :: "string \<Rightarrow> 'i node list \<Rightarrow> 'i node option" where
  "find_in name [] = None"
| "find_in name (NavigableString s # ns) = find_in name ns"
| "find_in name (SpecialString s # ns) = find_in name ns"
| "find_in name (Tag i n a cs # ns) =
     (if n = name then Some (Tag i n a cs)
      else (case find_in name cs of Some t \<Rightarrow> Some t | None \<Rightarrow> find_in name ns))"

definition find_tag :: "'i node \<Rightarrow> string \<Rightarrow> 'i node option" where
  "find_tag element name = find_in name (contents element)"

section \<open>The library interface\<close>

text \<open>
  The functions of the libraries that the program calls and that are not modelled
  here in full are parameters: the HTML parser behind \<open>BeautifulSoup(html, "html.parser")\<close>,
  which raises ParserRejectedMarkup on markup that \<open>html.parser\<close> gives up on
  (\<open>Raised\<close>), the CSS engine behind \<open>select_one\<close> (no match is \<open>Returned None\<close>,
  a rejected selector is \<open>Raised\<close>), the serialiser behind \<open>str(element)\<close>,
  \<open>difflib.unified_diff\<close> with the arguments the program fixes, and the host name
  that \<open>urlparse(url).hostname\<close> yields.
\<close>

record 'i library =
  parse :: "string \<Rightarrow> 'i node outcome"
  select_one :: "'i node \<Rightarrow> string \<Rightarrow> 'i node option outcome"
  str :: "'i node \<Rightarrow> string"
  unified_diff :: "string list \<Rightarrow> string list \<Rightarrow> string list"
  urlparse_hostname :: "string \<Rightarrow> string option outcome"

section \<open>page_tracker.extract_element\<close>

definition not_found_message :: "string \<Rightarrow> string \<Rightarrow> string" where
  "not_found_message selector selector_path =
     ''Element not found for selector '' @ [CHR 0x27] @ selector @ [CHR 0x27]
       @ '' in path '' @ [CHR 0x27] @ selector_path @ [CHR 0x27]"

definition selectors_of :: "string \<Rightarrow> string list" where
  "selectors_of selector_path =
     map strip (filter (\<lambda>s. strip s \<noteq> []) (split CHR ''|'' selector_path))"

text \<open>The \<open>for selector in selectors\<close> loop, with \<open>current_element\<close> as the state.\<close>

fun apply_selectors :: "'i library \<Rightarrow> string \<Rightarrow> 'i node \<Rightarrow> string list \<Rightarrow> 'i node outcome" where
  "apply_selectors L selector_path current_element [] = Returned current_element"
| "apply_selectors L selector_path current_element (selector # rest) =
     (case select_one L current_element selector of
        Raised e \<Rightarrow> Raised e
      | Returned None \<Rightarrow> Raised (ValueError (not_found_message selector selector_path))
      | Returned (Some found) \<Rightarrow> apply_selectors L selector_path found rest)"

text \<open>The parser runs first, whatever the selector path is; an exception it raises
  leaves the function.\<close>

definition extract_element :: "'i library \<Rightarrow> string \<Rightarrow> string \<Rightarrow> string outcome" where
  "extract_element L html_content selector_path =
     (case parse L html_content of
        Raised e \<Rightarrow> Raised e
      | Returned soup \<Rightarrow>
          if selector_path = [] \<or> strip selector_path = [] then
            (case find_tag soup ''body'' of
               None \<Rightarrow> Returned html_content
             | Some body \<Rightarrow> Returned (str L body))
          else
            (case apply_selectors L selector_path soup (selectors_of selector_path) of
               Raised e \<Rightarrow> Raised e
             | Returned current_element \<Rightarrow> Returned (str L current_element)))"

section \<open>page_tracker.normalize_html\<close>

text \<open>
  Python objects have an identity: \<open>find_all\<close> returns the tag objects themselves and
  \<open>decompose\<close> detaches the object it is called on. The model makes the identity
  explicit by numbering the tags of the freshly parsed tree in document order.
\<close>

fun number :: "nat \<Rightarrow> 'a node \<Rightarrow> nat node \<times> nat"
  and number_list :: "nat \<Rightarrow> 'a node list \<Rightarrow> nat node list \<times> nat" where
  "number k (NavigableString s) = (NavigableString s, k)"
| "number k (SpecialString s) = (SpecialString s, k)"
| "number k (Tag i n a cs) = (case number_list (Suc k) cs of (cs', k') \<Rightarrow> (Tag k n a cs', k'))"
| "number_list k [] = ([], k)"
| "number_list k (c # cs) =
     (case number k c of (c', k1) \<Rightarrow>
        (case number_list k1 cs of (cs', k2) \<Rightarrow> (c' # cs', k2)))"

text \<open>The attribute filter \<open>attrs={"type": "hidden"}\<close>: the value must equal the string.\<close>

definition is_hidden :: "attrs \<Rightarrow> bool" where
  "is_hidden a \<longleftrightarrow> map_of a ''type'' = Some ''hidden''"

text \<open>\<open>soup.find_all(attrs={"type": "hidden"})\<close>: every matching tag among the
  descendants, in document order, nested matches included.\<close>

fun find_all_hidden :: "'i node list \<Rightarrow> 'i list" where
  "find_all_hidden [] = []"
| "find_all_hidden (NavigableString s # ns) = find_all_hidden ns"
| "find_all_hidden (SpecialString s # ns) = find_all_hidden ns"
| "find_all_hidden (Tag i n a cs # ns) =
     (if is_hidden a then [i] else []) @ find_all_hidden cs @ find_all_hidden ns"

text \<open>\<open>hidden_element.decompose()\<close>: the tag with that identity leaves the tree with
  all it contains; a tag that an earlier call already detached is no longer in the tree,
  and the tree stays as it is.\<close>

fun decompose :: "'i \<Rightarrow> 'i node list \<Rightarrow> 'i node list" where
  "decompose h [] = []"
| "decompose h (NavigableString s # ns) = NavigableString s # decompose h ns"
| "decompose h (SpecialString s # ns) = SpecialString s # decompose h ns"
| "decompose h (Tag i n a cs # ns) =
     (if i = h then decompose h ns else Tag i n a (decompose h cs) # decompose h ns)"

text \<open>The strings that \<open>get_text\<close> visits, in document order.\<close>

fun all_strings :: "'i node list \<Rightarrow> string list" where
  "all_strings [] = []"
| "all_strings (NavigableString s # ns) = s # all_strings ns"
| "all_strings (SpecialString s # ns) = all_strings ns"
| "all_strings (Tag i n a cs # ns) = all_strings cs @ all_strings ns"

text \<open>\<open>get_text(separator, strip=True)\<close>: every string is stripped, the empty ones
  are skipped, the rest is joined with the separator.\<close>

definition get_text :: "string \<Rightarrow> 'i node list \<Rightarrow> string" where
  "get_text separator ns =
     join separator (filter (\<lambda>s. s \<noteq> []) (map strip (all_strings ns)))"

definition normalize_html :: "'i library \<Rightarrow> string \<Rightarrow> string outcome" where
  "normalize_html L html_content =
     (case parse L html_content of
        Raised e \<Rightarrow> Raised e
      | Returned parsed \<Rightarrow>
          (let soup = fst (number_list 0 (contents parsed));
               soup' = foldl (\<lambda>tree hidden_element. decompose hidden_element tree)
                         soup (find_all_hidden soup)
           in Returned (get_text '' '' soup')))"

text \<open>
  The specification's wording of the same step, for comparison: every element whose
  \<open>type\<close> attribute is \<open>hidden\<close> is removed together with its subtree.
\<close>

fun spec_remove_hidden :: "'i node list \<Rightarrow> 'i node list" where
  "spec_remove_hidden [] = []"
| "spec_remove_hidden (NavigableString s # ns) = NavigableString s # spec_remove_hidden ns"
| "spec_remove_hidden (SpecialString s # ns) = SpecialString s # spec_remove_hidden ns"
| "spec_remove_hidden (Tag i n a cs # ns) =
     (if is_hidden a then spec_remove_hidden ns
      else Tag i n a (spec_remove_hidden cs) # spec_remove_hidden ns)"

text \<open>The tags of a forest and their identities in document order, and the removal of
  a set of identities at once; they serve to state and prove what the loop leaves.\<close>

fun tags_of :: "'i node list \<Rightarrow> 'i node list" where
  "tags_of [] = []"
| "tags_of (NavigableString s # ns) = tags_of ns"
| "tags_of (SpecialString s # ns) = tags_of ns"
| "tags_of (Tag i n a cs # ns) = Tag i n a cs # tags_of cs @ tags_of ns"

fun tag_attrs :: "'i node \<Rightarrow> attrs" where
  "tag_attrs (Tag i n a cs) = a"
| "tag_attrs _ = []"

fun tag_name :: "'i node \<Rightarrow> string" where
  "tag_name (Tag i n a cs) = n"
| "tag_name _ = []"

text \<open>
  The specification's wording of the body lookup, for comparison: the document's body
  element is the first element named \<open>body\<close> among all elements of the document taken
  in document order.
\<close>

definition spec_body_element :: "'i node \<Rightarrow> 'i node option" where
  "spec_body_element soup = List.find (\<lambda>t. tag_name t = ''body'') (tags_of (contents soup))"

fun tag_ids :: "'i node list \<Rightarrow> 'i list" where
  "tag_ids [] = []"
| "tag_ids (NavigableString s # ns) = tag_ids ns"
| "tag_ids (SpecialString s # ns) = tag_ids ns"
| "tag_ids (Tag i n a cs # ns) = i # tag_ids cs @ tag_ids ns"

fun remove_ids :: "'i set \<Rightarrow> 'i node list \<Rightarrow> 'i node list" where
  "remove_ids S [] = []"
| "remove_ids S (NavigableString s # ns) = NavigableString s # remove_ids S ns"
| "remove_ids S (SpecialString s # ns) = SpecialString s # remove_ids S ns"
| "remove_ids S (Tag i n a cs # ns) =
     (if i \<in> S then remove_ids S ns else Tag i n a (remove_ids S cs) # remove_ids S ns)"

section \<open>main.ChangeDetector._generate_diff\<close>

text \<open>\<open>s.splitlines(keepends=True)\<close>: a line ends after a line boundary, which stays
  in the line; \<open>cur\<close> is the line read so far.\<close>

definition line_boundaries :: "char list" where
  "line_boundaries = [CHR 0x0A, CHR 0x0B, CHR 0x0C, CHR 0x1C, CHR 0x1D, CHR 0x1E, CHR 0x85]"

fun splitlines_from :: "string \<Rightarrow> string \<Rightarrow> string list" where
  "splitlines_from cur [] = (if cur = [] then [] else [cur])"
| "splitlines_from cur [c] = [cur @ [c]]"
| "splitlines_from cur (c # d # cs) =
     (if c = CHR 0x0D \<and> d = CHR 0x0A then (cur @ [c, d]) # splitlines_from [] cs
      else if c = CHR 0x0D \<or> c \<in> set line_boundaries then (cur @ [c]) # splitlines_from [] (d # cs)
      else splitlines_from (cur @ [c]) (d # cs))"

definition splitlines :: "string \<Rightarrow> string list" where
  "splitlines s = splitlines_from [] s"

text \<open>\<open>str(n)\<close> for an integer, as the f-strings of the program print it.\<close>

definition digit_char :: "nat \<Rightarrow> char" where
  "digit_char d = char_of (48 + d)"

fun digits :: "nat \<Rightarrow> string" where
  "digits n = (if n < 10 then [digit_char n] else digits (n div 10) @ [digit_char (n mod 10)])"

declare digits.simps [simp del]

definition str_int :: "int \<Rightarrow> string" where
  "str_int i = (if i < 0 then CHR ''-'' # digits (nat (- i)) else digits (nat i))"

text \<open>The slice \<open>xs[:n]\<close>: a negative \<open>n\<close> counts from the end.\<close>

definition slice_to :: "int \<Rightarrow> 'a list \<Rightarrow> 'a list" where
  "slice_to n xs = (if n < 0 then take (nat (int (length xs) + n)) xs else take (nat n) xs)"

definition truncation_marker :: "int \<Rightarrow> string" where
  "truncation_marker max_lines =
     [CHR 0x0A] @ ''... (truncated, showing first '' @ str_int max_lines @ '' lines)''"

text \<open>The list \<open>diff_lines\<close> as it stands before the final \<open>"".join(diff_lines)\<close>.\<close>

definition diff_lines :: "'i library \<Rightarrow> string \<Rightarrow> string \<Rightarrow> int \<Rightarrow> string list" where
  "diff_lines L old_content new_content max_lines =
     (let old_lines = splitlines old_content;
          new_lines = splitlines new_content;
          diff = unified_diff L old_lines new_lines
      in if int (length diff) > max_lines
         then slice_to max_lines diff @ [truncation_marker max_lines]
         else diff)"

definition generate_diff :: "'i library \<Rightarrow> string \<Rightarrow> string \<Rightarrow> int \<Rightarrow> string" where
  "generate_diff L old_content new_content max_lines =
     concat (diff_lines L old_content new_content max_lines)"

section \<open>main.ChangeDetector\<close>

text \<open>
  The fields of the detector that the poll cycle reads or writes; \<open>notifier\<close> tells
  whether a notifier was configured. The reload interval and its jitter only feed the
  sleep between two cycles, which draws a floating-point random number and is left out.
\<close>

record change_detector =
  url :: string
  element_selector :: string
  notifier :: bool
  previous_content :: "string option"
  last_request_time :: "nat option"
  success_count :: int
  error_count :: int

record notification =
  title :: string
  message :: string
  page_url :: string
  hostname :: "string option"
  diff :: "string option"

datatype level = INFO | WARNING | ERROR

text \<open>
  What a cycle does to the outside, in order: the log lines it emits (the root logger
  is set to INFO, so the two DEBUG lines are never emitted), the assignments to
  \<open>_previous_content\<close>, and the calls of \<open>send_notification\<close>.
\<close>

datatype event =
    Log level string
  | StoreBaseline string
  | SendNotification notification

text \<open>
  What the outside answers in one cycle: the clock, the HTTP exchange (\<open>Raised\<close> for a
  network error or a status that \<open>raise_for_status\<close> rejects) and what
  \<open>send_notification\<close> does if it is called (\<open>Raised\<close> for any \<open>Exception\<close>).
\<close>

record cycle =
  now :: nat
  response :: "string outcome"
  delivery :: "unit outcome"

fun exn_text :: "exn \<Rightarrow> string" where
  "exn_text (ValueError m) = m"
| "exn_text (OtherError m) = m"

definition counters :: "change_detector \<Rightarrow> string" where
  "counters self = ''Success: '' @ str_int (success_count self)
     @ '', Errors: '' @ str_int (error_count self)"

definition fetch_page :: "change_detector \<Rightarrow> cycle \<Rightarrow> string option \<times> change_detector \<times> event list" where
  "fetch_page self c =
     (case response c of
        Returned text \<Rightarrow> (Some text, self, [])
      | Raised e \<Rightarrow>
          (None, self\<lparr>error_count := error_count self + 1\<rparr>,
           [Log ERROR (''Failed to fetch page: '' @ exn_text e)]))"

definition extract_hostname :: "'i library \<Rightarrow> string \<Rightarrow> string option" where
  "extract_hostname L u = (case urlparse_hostname L u of Returned h \<Rightarrow> h | Raised e \<Rightarrow> None)"

definition notify_change :: "'i library \<Rightarrow> change_detector \<Rightarrow> cycle \<Rightarrow> string \<Rightarrow> string \<Rightarrow> event list" where
  "notify_change L self c old_content new_content =
     (if notifier self then
        (let h = extract_hostname L (url self);
             d = generate_diff L old_content new_content 30;
             n = \<lparr>title = ''Page Change Detected'',
                  message = ''The monitored webpage has been updated!'',
                  page_url = url self, hostname = h, diff = Some d\<rparr>
         in SendNotification n #
            (case delivery c of
               Returned u \<Rightarrow> [Log INFO ''Notification sent to Discord'']
             | Raised e \<Rightarrow> [Log ERROR (''Failed to send notification: '' @ exn_text e)]))
      else [Log WARNING ''No notifier configured, skipping notification''])"

text \<open>
  One poll cycle. The result is what \<open>_check_for_changes\<close> returns, or the exception
  that leaves it: \<open>except ValueError\<close> lets every other exception of the extraction
  through.
\<close>

definition check_for_changes ::
  "'i library \<Rightarrow> change_detector \<Rightarrow> cycle \<Rightarrow> bool outcome \<times> change_detector \<times> event list" where
  "check_for_changes L self0 c =
     (let self1 = self0\<lparr>last_request_time := Some (now c)\<rparr> in
      case fetch_page self1 c of
        (None, self2, ev1) \<Rightarrow> (Returned False, self2, ev1)
      | (Some html_content, self2, ev1) \<Rightarrow>
          (let self3 = self2\<lparr>success_count := success_count self2 + 1\<rparr> in
           case (case extract_element L html_content (element_selector self3) of
                   Raised e \<Rightarrow> Raised e
                 | Returned element_html \<Rightarrow> normalize_html L element_html) of
             Raised (ValueError m) \<Rightarrow>
               (let self4 = self3\<lparr>error_count := error_count self3 + 1\<rparr> in
                (Returned False, self4, ev1 @ [Log ERROR (''Failed to extract element: '' @ m)]))
           | Raised (OtherError m) \<Rightarrow> (Raised (OtherError m), self3, ev1)
           | Returned normalized_content \<Rightarrow>
               (case previous_content self3 of
                  None \<Rightarrow>
                    (let self4 = self3\<lparr>previous_content := Some normalized_content\<rparr> in
                     (Returned False, self4,
                      ev1 @ [StoreBaseline normalized_content,
                             Log INFO (''Initial content stored. '' @ counters self4)]))
                | Some old_content \<Rightarrow>
                    if normalized_content \<noteq> old_content then
                      (let self4 = self3\<lparr>previous_content := Some normalized_content\<rparr> in
                       (Returned True, self4,
                        ev1 @ [StoreBaseline normalized_content,
                               Log INFO (''CHANGE DETECTED! '' @ counters self4)]
                            @ notify_change L self4 c old_content normalized_content))
                    else
                      (Returned False, self3, ev1 @ [Log INFO (''No change. '' @ counters self3)]))))"

text \<open>
  The loop of \<open>run\<close> over the answers of as many cycles as are given. It stops only
  when an exception leaves a cycle; otherwise it goes through all of them.
\<close>

fun run :: "'i library \<Rightarrow> change_detector \<Rightarrow> cycle list \<Rightarrow> exn option \<times> change_detector \<times> event list" where
  "run L self [] = (None, self, [])"
| "run L self (c # cs) =
     (case check_for_changes L self c of
        (Raised e, self', ev) \<Rightarrow> (Some e, self', ev)
      | (Returned changed, self', ev) \<Rightarrow>
          (case run L self' cs of (r, self'', ev') \<Rightarrow> (r, self'', ev @ ev')))"

fun is_send :: "event \<Rightarrow> bool" where
  "is_send (SendNotification n) = True"
| "is_send _ = False"

section \<open>A model of the HTML parser on a fragment of HTML\<close>

text \<open>
  The concrete documents below are parsed by a model of BeautifulSoup's tree builder
  over Python's \<open>html.parser\<close>, for this fragment of HTML: text; the character
  references \<open>&lt;\<close>, \<open>&gt;\<close>, \<open>&amp;\<close> and \<open>&quot;\<close>; start tags with a
  lower-case name and attributes written as one space, a lower-case name, \<open>=\<close> and a
  value in double quotes, ended by \<open>>\<close> or \<open>/>\<close>; end tags; and a marked
  section \<open><![keyword]\<close> with a keyword that \<open>html.parser\<close> does not know, on
  which it gives up and BeautifulSoup raises ParserRejectedMarkup. Tags whose content
  the library reads in another way (script, style and the like) lie outside the
  fragment, as do attributes whose value it splits into a list (class, rel and the
  like), comments and other declarations: there the model gives \<open>None\<close>.
\<close>

datatype token =
    Data string
  | StartTag string attrs
  | StartEndTag string attrs
  | EndTag string
  | Rejected string

definition lower_letters :: "char list" where
  "lower_letters = ''abcdefghijklmnopqrstuvwxyz''"

definition is_name_char :: "char \<Rightarrow> bool" where
  "is_name_char c \<longleftrightarrow> c \<in> set (lower_letters @ ''0123456789'')"

definition is_value_char :: "char \<Rightarrow> bool" where
  "is_value_char c \<longleftrightarrow> c \<notin> set [CHR 0x22, CHR ''&'', CHR ''<'', CHR ''>'']"

definition is_text_char :: "char \<Rightarrow> bool" where
  "is_text_char c \<longleftrightarrow> c \<notin> set [CHR ''&'', CHR ''<'']"

definition is_tag_name :: "string \<Rightarrow> bool" where
  "is_tag_name n \<longleftrightarrow> n \<noteq> [] \<and> hd n \<in> set lower_letters
     \<and> n \<notin> set [''script'', ''style'', ''template'', ''rt'', ''rp'', ''textarea'', ''title'',
                   ''plaintext'', ''xmp'', ''iframe'', ''noembed'', ''noframes'']"

definition is_attr_name :: "string \<Rightarrow> bool" where
  "is_attr_name k \<longleftrightarrow> k \<noteq> [] \<and> hd k \<in> set lower_letters
     \<and> k \<notin> set [''class'', ''accesskey'', ''dropzone'', ''rel'', ''rev'', ''headers'',
                   ''archive'', ''sizes'', ''sandbox'', ''for'']"

definition known_marked_sections :: "string list" where
  "known_marked_sections =
     [''temp'', ''cdata'', ''ignore'', ''include'', ''rcdata'', ''if'', ''else'', ''endif'']"

text \<open>Attributes are collected in a \<open>dict\<close>: a repeated name overwrites the value.\<close>

fun dict_set :: "string \<Rightarrow> string \<Rightarrow> attrs \<Rightarrow> attrs" where
  "dict_set k v [] = [(k, v)]"
| "dict_set k v ((k', v') # kvs) = (if k' = k then (k, v) # kvs else (k', v') # dict_set k v kvs)"

text \<open>The attributes of a start tag, up to the \<open>>\<close> or \<open>/>\<close> that ends it; the result
  holds the input from there on.\<close>

function attributes :: "attrs \<Rightarrow> string \<Rightarrow> (attrs \<times> string) option" where
  "attributes acc s =
     (case s of
        [] \<Rightarrow> None
      | c # rest \<Rightarrow>
          if c = CHR ''>'' \<or> c = CHR ''/'' then Some (acc, s)
          else if c = CHR '' '' then
            (let k = takeWhile is_name_char rest in
             case dropWhile is_name_char rest of
               c1 # c2 # rest2 \<Rightarrow>
                 if is_attr_name k \<and> c1 = CHR ''='' \<and> c2 = CHR 0x22 then
                   (let v = takeWhile is_value_char rest2 in
                    case dropWhile is_value_char rest2 of
                      c3 # rest3 \<Rightarrow> if c3 = CHR 0x22 then attributes (dict_set k v acc) rest3 else None
                    | [] \<Rightarrow> None)
                 else None
             | _ \<Rightarrow> None)
          else None)"
  by pat_completeness auto
termination
proof (relation "measure (\<lambda>(acc, s). length s)", goal_cases)
  case 1
  then show ?case by simp
next
  case (2 acc s c rest k c1 list c2 rest2 v c3 rest3)
  have "length (c3 # rest3) \<le> length rest2"
    using 2 by (metis length_dropWhile_le)
  moreover have "length (c1 # c2 # rest2) \<le> length rest"
    using 2 by (metis length_dropWhile_le)
  ultimately show ?case using 2 by simp
qed

definition entity :: "string \<Rightarrow> string option" where
  "entity name =
     (if name = ''lt'' then Some ''<'' else if name = ''gt'' then Some ''>''
      else if name = ''amp'' then Some ''&'' else if name = ''quot'' then Some [CHR 0x22]
      else None)"

text \<open>What follows the attributes: \<open>>\<close> ends a start tag, \<open>/>\<close> an empty-element
  tag. The result tells which, and holds the input after it.\<close>

definition tag_end :: "string \<Rightarrow> (bool \<times> string) option" where
  "tag_end s =
     (case s of
        [] \<Rightarrow> None
      | c # rest \<Rightarrow>
          if c = CHR ''>'' then Some (False, rest)
          else (case rest of
                  [] \<Rightarrow> None
                | d # rest' \<Rightarrow> if c = CHR ''/'' \<and> d = CHR ''>'' then Some (True, rest') else None))"

definition start_tag :: "string \<Rightarrow> (token \<times> string) option" where
  "start_tag s =
     (let name = takeWhile is_name_char s in
      if is_tag_name name then
        (case attributes [] (dropWhile is_name_char s) of
           None \<Rightarrow> None
         | Some (a, s') \<Rightarrow>
             (case tag_end s' of
                None \<Rightarrow> None
              | Some (startend, rest) \<Rightarrow>
                  Some (if startend then StartEndTag name a else StartTag name a, rest)))
      else None)"

function tokenize :: "string \<Rightarrow> token list option" where
  "tokenize s =
     (case s of
        [] \<Rightarrow> Some []
      | c # rest \<Rightarrow>
          if c = CHR ''&'' then
            (case dropWhile is_name_char rest of
               c1 # rest1 \<Rightarrow>
                 (case entity (takeWhile is_name_char rest) of
                    Some d \<Rightarrow> if c1 = CHR '';'' then map_option (Cons (Data d)) (tokenize rest1) else None
                  | None \<Rightarrow> None)
             | [] \<Rightarrow> None)
          else if c = CHR ''<'' then
            (case rest of
               [] \<Rightarrow> None
             | d # rest0 \<Rightarrow>
                 if d = CHR ''!'' then
                   (let keyword = takeWhile (\<lambda>x. x \<in> set lower_letters) (drop 1 rest0) in
                    if take 1 rest0 = ''['' \<and> keyword \<noteq> []
                       \<and> take 1 (dropWhile (\<lambda>x. x \<in> set lower_letters) (drop 1 rest0)) = '']''
                       \<and> keyword \<notin> set known_marked_sections
                    then Some [Rejected keyword] else None)
                 else if d = CHR ''/'' then
                   (case dropWhile is_name_char rest0 of
                      c1 # rest1 \<Rightarrow>
                        if c1 = CHR ''>'' \<and> is_tag_name (takeWhile is_name_char rest0)
                        then map_option (Cons (EndTag (takeWhile is_name_char rest0))) (tokenize rest1)
                        else None
                    | [] \<Rightarrow> None)
                 else
                   (case start_tag rest of
                      Some (t, rest1) \<Rightarrow> map_option (Cons t) (tokenize rest1)
                    | None \<Rightarrow> None))
          else map_option (Cons (Data (takeWhile is_text_char s))) (tokenize (dropWhile is_text_char s)))"
  by pat_completeness auto
termination
proof (relation "measure length", goal_cases)
  case 1
  then show ?case by simp
next
  case (2 s c rest c1 rest1 d)
  then show ?case using length_dropWhile_le[of is_name_char rest] by simp
next
  case (3 s c rest d rest0 c1 rest1)
  then show ?case using length_dropWhile_le[of is_name_char rest0] by simp
next
  case (4 s c rest d rest0 x2 t rest1)
  have shorter: "length r \<le> length u" if "attributes acc u = Some (b, r)" for acc u b r
    using that
  proof (induction acc u rule: attributes.induct)
    case (1 acc u)
    show ?case
    proof (cases u)
      case Nil
      then show ?thesis using 1(2) by simp
    next
      case (Cons e rest)
      show ?thesis
      proof (cases "e = CHR ''>'' \<or> e = CHR ''/''")
        case True
        then show ?thesis using 1(2) Cons by auto
      next
        case False
        then have sp: "e = CHR '' ''" using 1(2) Cons by (simp split: if_splits)
        let ?k = "takeWhile is_name_char rest"
        from 1(2) Cons False sp obtain rest2 where
          d1: "dropWhile is_name_char rest = CHR ''='' # CHR 0x22 # rest2"
          and k: "is_attr_name ?k"
          by (auto simp: Let_def split: list.splits if_splits)
        let ?v = "takeWhile is_value_char rest2"
        from 1(2) Cons False sp d1 k obtain rest3 where
          d2: "dropWhile is_value_char rest2 = CHR 0x22 # rest3"
          and rec: "attributes (dict_set ?k ?v acc) rest3 = Some (b, r)"
          by (auto simp: Let_def split: list.splits if_splits)
        have "length r \<le> length rest3"
          using "1.IH"[OF Cons False sp refl d1 refl _ refl d2 refl rec] k by simp
        moreover have "length (CHR 0x22 # rest3) \<le> length rest2"
          using d2 by (metis length_dropWhile_le)
        moreover have "length (CHR ''='' # CHR 0x22 # rest2) \<le> length rest"
          using d1 by (metis length_dropWhile_le)
        ultimately show ?thesis using Cons by simp
      qed
    qed
  qed
  from 4 obtain a s' startend where
    at: "attributes [] (dropWhile is_name_char rest) = Some (a, s')"
    and te: "tag_end s' = Some (startend, rest1)"
    by (auto simp: start_tag_def Let_def split: if_splits option.splits)
  have "length rest1 < length s'"
    using te by (auto simp: tag_end_def split: list.splits if_splits)
  then show ?case
    using 4 shorter[OF at] length_dropWhile_le[of is_name_char rest] by simp
next
  case (5 s c rest)
  have "is_text_char c" using 5 by (simp add: is_text_char_def)
  then show ?case using 5 length_dropWhile_le[of is_text_char rest] by simp
qed

text \<open>The tree builder: the stack of open tags, innermost first, each with the children
  it has so far, and the text collected since the last tag.\<close>

type_synonym frame = "string \<times> attrs \<times> unit node list"

record builder =
  tagStack :: "frame list"
  current_data :: "string list"
  already_closed_empty_element :: "string list"

definition empty_element_tags :: "string list" where
  "empty_element_tags = [''area'', ''base'', ''br'', ''col'', ''embed'', ''hr'', ''img'', ''input'',
     ''keygen'', ''link'', ''menuitem'', ''meta'', ''param'', ''source'', ''track'', ''wbr'',
     ''basefont'', ''bgsound'', ''command'', ''frame'', ''image'', ''isindex'', ''nextid'', ''spacer'']"

definition ASCII_SPACES :: "char list" where
  "ASCII_SPACES = [CHR 0x20, CHR 0x0A, CHR 0x09, CHR 0x0C, CHR 0x0D]"

definition ROOT_TAG_NAME :: string where
  "ROOT_TAG_NAME = ''[document]''"

fun object_was_parsed :: "unit node \<Rightarrow> frame list \<Rightarrow> frame list" where
  "object_was_parsed obj [] = []"
| "object_was_parsed obj ((n, a, cs) # st) = (n, a, cs @ [obj]) # st"

text \<open>A string of ASCII white space only becomes one newline or one space, unless a
  \<open>pre\<close> tag is open.\<close>

definition endData :: "builder \<Rightarrow> builder" where
  "endData b =
     (if current_data b = [] then b
      else
        (let joined = concat (current_data b);
             d = (if list_all (\<lambda>c. c \<in> set ASCII_SPACES) joined
                     \<and> ''pre'' \<notin> set (map fst (tagStack b))
                  then (if CHR 0x0A \<in> set joined then [CHR 0x0A] else [CHR 0x20])
                  else joined)
         in b\<lparr>tagStack := object_was_parsed (NavigableString d) (tagStack b), current_data := []\<rparr>))"

fun popTag :: "frame list \<Rightarrow> frame list" where
  "popTag ((n, a, cs) # parent # st) = object_was_parsed (Tag () n a cs) (parent # st)"
| "popTag st = st"

text \<open>An end tag closes the innermost open tag of its name and all that is open inside.\<close>

function (sequential) popToTag :: "string \<Rightarrow> frame list \<Rightarrow> frame list" where
  "popToTag name ((n, a, cs) # parent # rest) =
     (if n = name then popTag ((n, a, cs) # parent # rest)
      else popToTag name (popTag ((n, a, cs) # parent # rest)))"
| "popToTag name st = st"
  by pat_completeness auto
termination
  by (relation "measure (\<lambda>(name, st). length st)") (auto split: prod.splits)

definition soup_handle_endtag :: "string \<Rightarrow> builder \<Rightarrow> builder" where
  "soup_handle_endtag name b =
     (let b' = endData b in
      if name \<in> set (map fst (butlast (tagStack b')))
      then b'\<lparr>tagStack := popToTag name (tagStack b')\<rparr> else b')"

text \<open>The end tag of an empty element that was closed when it was opened is crossed
  off the list and does nothing else.\<close>

definition handle_endtag :: "string \<Rightarrow> bool \<Rightarrow> builder \<Rightarrow> builder" where
  "handle_endtag name check_already_closed b =
     (if check_already_closed \<and> name \<in> set (already_closed_empty_element b)
      then b\<lparr>already_closed_empty_element := remove1 name (already_closed_empty_element b)\<rparr>
      else soup_handle_endtag name b)"

definition handle_starttag :: "string \<Rightarrow> attrs \<Rightarrow> bool \<Rightarrow> builder \<Rightarrow> builder" where
  "handle_starttag name a handle_empty_element b =
     (let b' = endData b;
          pushed = b'\<lparr>tagStack := (name, a, []) # tagStack b'\<rparr>
      in if name \<in> set empty_element_tags \<and> handle_empty_element then
           (let closed = handle_endtag name False pushed
            in closed\<lparr>already_closed_empty_element := already_closed_empty_element closed @ [name]\<rparr>)
         else pushed)"

definition handle_startendtag :: "string \<Rightarrow> attrs \<Rightarrow> builder \<Rightarrow> builder" where
  "handle_startendtag name a b = handle_endtag name True (handle_starttag name a False b)"

definition handle_data :: "string \<Rightarrow> builder \<Rightarrow> builder" where
  "handle_data d b = b\<lparr>current_data := current_data b @ [d]\<rparr>"

fun feed :: "token list \<Rightarrow> builder \<Rightarrow> builder" where
  "feed [] b = b"
| "feed (Data d # ts) b = feed ts (handle_data d b)"
| "feed (StartTag n a # ts) b = feed ts (handle_starttag n a True b)"
| "feed (StartEndTag n a # ts) b = feed ts (handle_startendtag n a b)"
| "feed (EndTag n # ts) b = feed ts (handle_endtag n True b)"
| "feed (Rejected keyword # ts) b = b"

text \<open>The keyword of the marked section on which the parser gave up, if there is one.\<close>

fun rejection :: "token list \<Rightarrow> string option" where
  "rejection [] = None"
| "rejection (Rejected keyword # ts) = Some keyword"
| "rejection (t # ts) = rejection ts"

definition rejected_markup :: "string \<Rightarrow> exn" where
  "rejected_markup keyword =
     OtherError (''AssertionError: unknown status keyword '' @ [CHR 0x27] @ keyword @ [CHR 0x27]
       @ '' in marked section'')"

text \<open>At the end of the input every tag that is still open is closed.\<close>

function (sequential) close_all :: "frame list \<Rightarrow> frame list" where
  "close_all (f # parent # rest) = close_all (popTag (f # parent # rest))"
| "close_all st = st"
  by pat_completeness auto
termination
  by (relation "measure length") (auto split: prod.splits)

definition html_parser :: "string \<Rightarrow> unit node outcome option" where
  "html_parser markup =
     (case tokenize markup of
        None \<Rightarrow> None
      | Some ts \<Rightarrow>
          (case rejection ts of
             Some keyword \<Rightarrow> Some (Raised (rejected_markup keyword))
           | None \<Rightarrow>
               (case close_all (tagStack (endData (feed ts
                        \<lparr>tagStack = [(ROOT_TAG_NAME, [], [])], current_data = [],
                          already_closed_empty_element = []\<rparr>))) of
                  [(n, a, cs)] \<Rightarrow> Some (Returned (Tag () n a cs))
                | _ \<Rightarrow> None)))"

section \<open>Models of the other library functions on simple inputs\<close>

text \<open>\<open>str(element)\<close>: the markup of a tag with its attributes and all it contains; the
  document object itself prints its contents only. Strings escape \<open>&\<close>, \<open><\<close> and
  \<open>>\<close>.\<close>

fun substitute_xml :: "string \<Rightarrow> string" where
  "substitute_xml [] = []"
| "substitute_xml (c # cs) =
     (if c = CHR ''&'' then ''&amp;'' else if c = CHR ''<'' then ''&lt;''
      else if c = CHR ''>'' then ''&gt;'' else [c]) @ substitute_xml cs"

definition quoted_attribute_value :: "string \<Rightarrow> string" where
  "quoted_attribute_value v =
     (if CHR 0x22 \<in> set v then
        (if CHR 0x27 \<in> set v
         then [CHR 0x22] @ concat (map (\<lambda>c. if c = CHR 0x22 then ''&quot;'' else [c]) v) @ [CHR 0x22]
         else [CHR 0x27] @ v @ [CHR 0x27])
      else [CHR 0x22] @ v @ [CHR 0x22])"

definition decode_attrs :: "attrs \<Rightarrow> string" where
  "decode_attrs a =
     concat (map (\<lambda>(k, v). '' '' @ k @ ''='' @ quoted_attribute_value (substitute_xml v)) a)"

fun decode :: "'i node \<Rightarrow> string" where
  "decode (NavigableString s) = substitute_xml s"
| "decode (SpecialString s) = s"
| "decode (Tag i n a cs) =
     (if n = ROOT_TAG_NAME then concat (map decode cs)
      else if n \<in> set empty_element_tags then ''<'' @ n @ decode_attrs a @ ''/>''
      else ''<'' @ n @ decode_attrs a @ ''>'' @ concat (map decode cs) @ ''</'' @ n @ ''>'')"

text \<open>\<open>select_one\<close> for the two simplest selectors, \<open>#id\<close> and a tag name, both
  written with lower-case letters and digits after a first letter: the first matching
  descendant in document order. Other selectors are not modelled (\<open>None\<close>).\<close>

fun first_match :: "('i node \<Rightarrow> bool) \<Rightarrow> 'i node list \<Rightarrow> 'i node option" where
  "first_match P [] = None"
| "first_match P (NavigableString s # ns) = first_match P ns"
| "first_match P (SpecialString s # ns) = first_match P ns"
| "first_match P (Tag i n a cs # ns) =
     (if P (Tag i n a cs) then Some (Tag i n a cs)
      else (case first_match P cs of Some t \<Rightarrow> Some t | None \<Rightarrow> first_match P ns))"

definition is_identifier :: "string \<Rightarrow> bool" where
  "is_identifier x \<longleftrightarrow> x \<noteq> [] \<and> hd x \<in> set lower_letters \<and> list_all is_name_char x"

definition select_one_simple :: "'i node \<Rightarrow> string \<Rightarrow> 'i node option outcome option" where
  "select_one_simple element selector =
     (if take 1 selector = ''#'' \<and> is_identifier (drop 1 selector) then
        Some (Returned (first_match (\<lambda>t. map_of (tag_attrs t) ''id'' = Some (drop 1 selector))
                          (contents element)))
      else if is_identifier selector then
        Some (Returned (first_match (\<lambda>t. tag_name t = selector) (contents element)))
      else None)"

text \<open>\<open>unified_diff\<close> with the headers and the context the program asks for, when each
  side has at most one line: a replaced, an added or a removed line.\<close>

definition unified_diff_short :: "string list \<Rightarrow> string list \<Rightarrow> string list option" where
  "unified_diff_short a b =
     (case (a, b) of
        ([], []) \<Rightarrow> Some []
      | ([x], []) \<Rightarrow> Some [''--- Previous'', ''+++ Current'', ''@@ -1 +0,0 @@'', ''-'' @ x]
      | ([], [y]) \<Rightarrow> Some [''--- Previous'', ''+++ Current'', ''@@ -0,0 +1 @@'', ''+'' @ y]
      | ([x], [y]) \<Rightarrow>
          if x = y then Some []
          else Some [''--- Previous'', ''+++ Current'', ''@@ -1 +1 @@'', ''-'' @ x, ''+'' @ y]
      | _ \<Rightarrow> None)"

text \<open>\<open>urlparse(url).hostname\<close> for \<open>http\<close> and \<open>https\<close> addresses with a plain
  lower-case host name.\<close>

definition is_host_char :: "char \<Rightarrow> bool" where
  "is_host_char c \<longleftrightarrow> is_name_char c \<or> c = CHR ''.'' \<or> c = CHR ''-''"

definition after_scheme :: "string \<Rightarrow> string option" where
  "after_scheme u =
     (if take 7 u = ''http://'' then Some (drop 7 u)
      else if take 8 u = ''https://'' then Some (drop 8 u) else None)"

definition hostname_simple :: "string \<Rightarrow> string option outcome option" where
  "hostname_simple u =
     (case after_scheme u of
        None \<Rightarrow> None
      | Some r \<Rightarrow>
          (let h = takeWhile is_host_char r; rest = dropWhile is_host_char r
           in if h \<noteq> [] \<and> (rest = [] \<or> hd rest = CHR ''/'') then Some (Returned (Some h)) else None))"

definition example_library :: "unit library" where
  "example_library =
     \<lparr>parse = (\<lambda>markup. the (html_parser markup)),
      select_one = (\<lambda>element selector. the (select_one_simple element selector)),
      str = decode,
      unified_diff = (\<lambda>a b. the (unified_diff_short a b)),
      urlparse_hostname = (\<lambda>u. the (hostname_simple u))\<rparr>"

text \<open>
  What a cycle gets to compare, used to state properties of several cycles: the
  normalized text when fetch and extraction succeed, nothing when one of them fails in a
  way the cycle recovers from, or the exception that leaves the cycle.
\<close>

definition observed_text :: "'i library \<Rightarrow> string \<Rightarrow> cycle \<Rightarrow> string option outcome" where
  "observed_text L selector c =
     (case response c of
        Raised e \<Rightarrow> Returned None
      | Returned html_content \<Rightarrow>
          (case extract_element L html_content selector of
             Raised (ValueError m) \<Rightarrow> Returned None
           | Raised (OtherError m) \<Rightarrow> Raised (OtherError m)
           | Returned element_html \<Rightarrow>
               (case normalize_html L element_html of
                  Raised (ValueError m) \<Rightarrow> Returned None
                | Raised (OtherError m) \<Rightarrow> Raised (OtherError m)
                | Returned normalized_content \<Rightarrow> Returned (Some normalized_content))))"

section \<open>A concrete run\<close>

text \<open>The pages and the detector of the end-to-end scenario: the whole body is watched
  and a notifier is configured.\<close>

definition page_hello :: string where
  "page_hello = ''<body><p>Hello</p></body>''"

definition page_hello_hidden :: string where
  "page_hello_hidden = ''<body><p>Hello</p><input type=\"hidden\" value=\"x\"></body>''"

definition page_goodbye :: string where
  "page_goodbye = ''<body><p>Goodbye</p></body>''"

definition fresh_detector :: change_detector where
  "fresh_detector =
     \<lparr>url = ''https://example.com/page'', element_selector = [], notifier = True,
      previous_content = None, last_request_time = None, success_count = 0, error_count = 0\<rparr>"

definition detector_with_hello :: change_detector where
  "detector_with_hello =
     fresh_detector\<lparr>previous_content := Some ''Hello'', last_request_time := Some 0,
       success_count := 1\<rparr>"

definition cycle_ok :: "nat \<Rightarrow> string \<Rightarrow> cycle" where
  "cycle_ok t page = \<lparr>now = t, response = Returned page, delivery = Returned ()\<rparr>"

definition cycle_undelivered :: "nat \<Rightarrow> string \<Rightarrow> cycle" where
  "cycle_undelivered t page =
     \<lparr>now = t, response = Returned page, delivery = Raised (OtherError ''503 Service Unavailable'')\<rparr>"

definition page_two_divs :: string where
  "page_two_divs = ''<div id=\"a\"><p>x</p></div><div id=\"b\">y</div>''"

definition div_a :: "unit node" where
  "div_a = Tag () ''div'' [(''id'', ''a'')] [Tag () ''p'' [] [NavigableString ''x'']]"

definition soup_two_divs :: "unit node" where
  "soup_two_divs =
     Tag () ''[document]'' [] [div_a, Tag () ''div'' [(''id'', ''b'')] [NavigableString ''y'']]"

text \<open>A page whose body is a part of the document only, a page without a body whose
  markup is not what the serialiser prints, and a page that the parser rejects.\<close>

definition page_html_hello :: string where
  "page_html_hello = ''<html><body><p>Hello</p></body></html>''"

definition page_break :: string where
  "page_break = ''<br>x''"

definition page_rejected :: string where
  "page_rejected = ''<body><![x]><p>x</p></body>''"

section \<open>The comparator inside the poll cycle\<close>

lemma check_for_changes_success:
  assumes "response c = Returned html_content"
    and "extract_element L html_content (element_selector self) = Returned element_html"
    and "normalize_html L element_html = Returned normalized_content"
  shows "check_for_changes L self c =
    (let self3 = self\<lparr>last_request_time := Some (now c), success_count := success_count self + 1\<rparr>;
         self4 = self3\<lparr>previous_content := Some normalized_content\<rparr>
     in case previous_content self of
          None \<Rightarrow> (Returned False, self4,
                     [StoreBaseline normalized_content,
                      Log INFO (''Initial content stored. '' @ counters self4)])
        | Some old_content \<Rightarrow>
            if normalized_content \<noteq> old_content
            then (Returned True, self4,
                  [StoreBaseline normalized_content, Log INFO (''CHANGE DETECTED! '' @ counters self4)]
                    @ notify_change L self4 c old_content normalized_content)
            else (Returned False, self3, [Log INFO (''No change. '' @ counters self3)]))"
  using assms by (simp add: check_for_changes_def fetch_page_def Let_def split: option.splits)

lemma notify_change_sends:
  "list_ex is_send (notify_change L self c old_content new_content) \<longleftrightarrow> notifier self"
  by (simp add: notify_change_def Let_def split: outcome.splits)

text \<open>
  C1. With a baseline stored, a cycle whose fetch and extraction succeed, giving the
  normalized text \<open>new_content\<close>, reports a change exactly when \<open>new_content\<close> is
  not equal to the baseline; when the two are equal it keeps the baseline and calls no
  notifier.
\<close>

theorem change_reported_iff_text_differs:
  assumes "previous_content self = Some baseline"
    and "response c = Returned html_content"
    and "extract_element L html_content (element_selector self) = Returned element_html"
    and "normalize_html L element_html = Returned new_content"
  shows "fst (check_for_changes L self c) = Returned (new_content \<noteq> baseline)
    \<and> (new_content = baseline \<longrightarrow>
          previous_content (fst (snd (check_for_changes L self c))) = Some baseline
          \<and> \<not> list_ex is_send (snd (snd (check_for_changes L self c))))"
  using assms by (simp add: check_for_changes_success Let_def)

text \<open>
  C2. With no baseline stored, a cycle whose fetch and extraction succeed, giving the
  normalized text \<open>new_content\<close>, stores it as the baseline, reports no change whatever
  the text is, and calls no notifier.
\<close>

theorem first_cycle_stores_baseline:
  assumes "previous_content self = None"
    and "response c = Returned html_content"
    and "extract_element L html_content (element_selector self) = Returned element_html"
    and "normalize_html L element_html = Returned new_content"
  shows "fst (check_for_changes L self c) = Returned False
    \<and> previous_content (fst (snd (check_for_changes L self c))) = Some new_content
    \<and> \<not> list_ex is_send (snd (snd (check_for_changes L self c)))"
  using assms by (simp add: check_for_changes_success Let_def)

lemma extract_page_hello_hidden:
  "extract_element example_library page_hello_hidden [] =
     Returned ''<body><p>Hello</p><input type=\"hidden\" value=\"x\"/></body>''"
  by code_simp

lemma normalize_body_hello_hidden:
  "normalize_html example_library ''<body><p>Hello</p><input type=\"hidden\" value=\"x\"/></body>''
     = Returned ''Hello''"
  by code_simp

lemma extract_page_hello:
  "extract_element example_library page_hello [] = Returned ''<body><p>Hello</p></body>''"
  by code_simp

lemma normalize_body_hello:
  "normalize_html example_library ''<body><p>Hello</p></body>'' = Returned ''Hello''"
  by code_simp

lemma extract_page_goodbye:
  "extract_element example_library page_goodbye [] = Returned ''<body><p>Goodbye</p></body>''"
  by code_simp

lemma normalize_body_goodbye:
  "normalize_html example_library ''<body><p>Goodbye</p></body>'' = Returned ''Goodbye''"
  by code_simp

theorem change_reported_iff_text_differs_witness:
  "previous_content detector_with_hello = Some ''Hello''
   \<and> response (cycle_ok 60 page_hello_hidden) = Returned page_hello_hidden
   \<and> extract_element example_library page_hello_hidden (element_selector detector_with_hello)
       = Returned ''<body><p>Hello</p><input type=\"hidden\" value=\"x\"/></body>''
   \<and> normalize_html example_library ''<body><p>Hello</p><input type=\"hidden\" value=\"x\"/></body>''
       = Returned ''Hello''
   \<and> fst (check_for_changes example_library detector_with_hello (cycle_ok 60 page_hello_hidden))
       = Returned False
   \<and> previous_content (fst (snd (check_for_changes example_library detector_with_hello
         (cycle_ok 60 page_hello_hidden)))) = Some ''Hello''
   \<and> \<not> list_ex is_send (snd (snd (check_for_changes example_library detector_with_hello
         (cycle_ok 60 page_hello_hidden))))
   \<and> fst (check_for_changes example_library detector_with_hello (cycle_ok 60 page_goodbye))
       = Returned True"
proof -
  have h1: "previous_content detector_with_hello = Some ''Hello''"
    by (simp add: detector_with_hello_def)
  have h2: "response (cycle_ok 60 page_hello_hidden) = Returned page_hello_hidden"
    by (simp add: cycle_ok_def)
  have h3: "extract_element example_library page_hello_hidden (element_selector detector_with_hello)
       = Returned ''<body><p>Hello</p><input type=\"hidden\" value=\"x\"/></body>''"
    by (simp add: detector_with_hello_def fresh_detector_def extract_page_hello_hidden)
  have g2: "response (cycle_ok 60 page_goodbye) = Returned page_goodbye"
    by (simp add: cycle_ok_def)
  have g3: "extract_element example_library page_goodbye (element_selector detector_with_hello)
       = Returned ''<body><p>Goodbye</p></body>''"
    by (simp add: detector_with_hello_def fresh_detector_def extract_page_goodbye)
  show ?thesis
    using h1 h2 h3 normalize_body_hello_hidden
      change_reported_iff_text_differs [OF h1 h2 h3 normalize_body_hello_hidden]
      change_reported_iff_text_differs [OF h1 g2 g3 normalize_body_goodbye]
    by simp
qed

theorem first_cycle_stores_baseline_witness:
  "previous_content fresh_detector = None
   \<and> response (cycle_ok 0 page_hello) = Returned page_hello
   \<and> extract_element example_library page_hello (element_selector fresh_detector)
       = Returned ''<body><p>Hello</p></body>''
   \<and> normalize_html example_library ''<body><p>Hello</p></body>'' = Returned ''Hello''
   \<and> fst (check_for_changes example_library fresh_detector (cycle_ok 0 page_hello)) = Returned False
   \<and> previous_content (fst (snd (check_for_changes example_library fresh_detector
         (cycle_ok 0 page_hello)))) = Some ''Hello''
   \<and> \<not> list_ex is_send (snd (snd (check_for_changes example_library fresh_detector
         (cycle_ok 0 page_hello))))"
proof -
  have h1: "previous_content fresh_detector = None"
    by (simp add: fresh_detector_def)
  have h2: "response (cycle_ok 0 page_hello) = Returned page_hello"
    by (simp add: cycle_ok_def)
  have h3: "extract_element example_library page_hello (element_selector fresh_detector)
       = Returned ''<body><p>Hello</p></body>''"
    by (simp add: fresh_detector_def extract_page_hello)
  show ?thesis
    using h1 h2 h3 normalize_body_hello
      first_cycle_stores_baseline [OF h1 h2 h3 normalize_body_hello]
    by simp
qed

section \<open>Notification after the baseline is stored\<close>

lemma unchanged_cycle:
  assumes "previous_content self = Some content"
    and "observed_text L (element_selector self) c = Returned None
       \<or> observed_text L (element_selector self) c = Returned (Some content)"
  shows "\<exists>self' ev. check_for_changes L self c = (Returned False, self', ev)
       \<and> previous_content self' = Some content
       \<and> element_selector self' = element_selector self
       \<and> \<not> list_ex is_send ev"
  using assms
  by (auto simp: check_for_changes_def fetch_page_def observed_text_def Let_def
      split: outcome.splits exn.splits option.splits)

lemma unchanged_cycles:
  assumes "previous_content self = Some content"
    and "\<forall>c \<in> set cs. observed_text L (element_selector self) c = Returned None
           \<or> observed_text L (element_selector self) c = Returned (Some content)"
  shows "fst (run L self cs) = None
       \<and> previous_content (fst (snd (run L self cs))) = Some content
       \<and> \<not> list_ex is_send (snd (snd (run L self cs)))"
  using assms
proof (induction cs arbitrary: self)
  case Nil
  then show ?case by simp
next
  case (Cons c cs)
  from Cons.prems obtain self' ev where
    step: "check_for_changes L self c = (Returned False, self', ev)"
    and keep: "previous_content self' = Some content" "element_selector self' = element_selector self"
    and quiet: "\<not> list_ex is_send ev"
    using unchanged_cycle[of self content L c] by auto
  have rest: "\<forall>c \<in> set cs. observed_text L (element_selector self') c = Returned None
           \<or> observed_text L (element_selector self') c = Returned (Some content)"
    using Cons.prems(2) keep(2) by simp
  from Cons.IH[OF keep(1) rest] step quiet show ?case
    by (simp add: case_prod_beta)
qed

text \<open>
  C3. When a cycle detects a change, with \<open>new_content\<close> the normalized text it read, then whatever the notifier does when it is
  called (\<open>outcome\<close>, which may be any exception): the cycle returns True; the new text
  is stored, and the assignment comes in the trace before any call of the notifier;
  the loop goes on with the following cycles; and as long as the following cycles read
  that same text (or fail to read the page), the loop keeps running and calls the
  notifier no more.
\<close>

theorem baseline_stored_before_dispatch:
  assumes "previous_content self = Some old_content"
    and "response c = Returned html_content"
    and "extract_element L html_content (element_selector self) = Returned element_html"
    and "normalize_html L element_html = Returned new_content"
    and "new_content \<noteq> old_content"
  shows "\<forall>outcome.
    (let r = check_for_changes L self (c\<lparr>delivery := outcome\<rparr>);
         self' = fst (snd r);
         trace = snd (snd r)
     in fst r = Returned True
      \<and> previous_content self' = Some new_content
      \<and> (\<exists>pre post. trace = pre @ StoreBaseline new_content # post
            \<and> \<not> list_ex is_send pre \<and> (list_ex is_send post \<longleftrightarrow> notifier self))
      \<and> (\<forall>cs. run L self (c\<lparr>delivery := outcome\<rparr> # cs) =
            (case run L self' cs of (e, self'', trace') \<Rightarrow> (e, self'', trace @ trace')))
      \<and> (\<forall>cs. (\<forall>c2 \<in> set cs. observed_text L (element_selector self) c2 = Returned None
                   \<or> observed_text L (element_selector self) c2 = Returned (Some new_content))
            \<longrightarrow> fst (run L self' cs) = None
              \<and> previous_content (fst (snd (run L self' cs))) = Some new_content
              \<and> \<not> list_ex is_send (snd (snd (run L self' cs)))))"
proof
  fix outcome
  let ?c = "c\<lparr>delivery := outcome\<rparr>"
  let ?new = "new_content"
  let ?self3 = "self\<lparr>last_request_time := Some (now ?c), success_count := success_count self + 1\<rparr>"
  let ?self4 = "?self3\<lparr>previous_content := Some ?new\<rparr>"
  let ?post = "Log INFO (''CHANGE DETECTED! '' @ counters ?self4)
                 # notify_change L ?self4 ?c old_content ?new"
  have resp: "response ?c = Returned html_content" using assms(2) by simp
  have eq: "check_for_changes L self ?c = (Returned True, ?self4, StoreBaseline ?new # ?post)"
    using assms(1,5) by (simp add: check_for_changes_success[OF resp assms(3,4)] Let_def)
  have order: "\<exists>pre post. StoreBaseline ?new # ?post = pre @ StoreBaseline ?new # post
            \<and> \<not> list_ex is_send pre \<and> (list_ex is_send post \<longleftrightarrow> notifier self)"
  proof (intro exI conjI)
    show "StoreBaseline ?new # ?post = [] @ StoreBaseline ?new # ?post" by simp
    show "\<not> list_ex is_send []" by simp
    show "list_ex is_send ?post \<longleftrightarrow> notifier self" by (simp add: notify_change_sends)
  qed
  have loop: "run L self (?c # cs) =
      (case run L ?self4 cs of (e, self'', trace') \<Rightarrow> (e, self'', (StoreBaseline ?new # ?post) @ trace'))"
    for cs
    by (simp add: eq)
  have later: "fst (run L ?self4 cs) = None
        \<and> previous_content (fst (snd (run L ?self4 cs))) = Some ?new
        \<and> \<not> list_ex is_send (snd (snd (run L ?self4 cs)))"
    if "\<forall>c2 \<in> set cs. observed_text L (element_selector self) c2 = Returned None
          \<or> observed_text L (element_selector self) c2 = Returned (Some ?new)" for cs
    using unchanged_cycles[of ?self4 ?new cs L] that by simp
  show "let r = check_for_changes L self (c\<lparr>delivery := outcome\<rparr>);
         self' = fst (snd r);
         trace = snd (snd r)
     in fst r = Returned True
      \<and> previous_content self' = Some new_content
      \<and> (\<exists>pre post. trace = pre @ StoreBaseline new_content # post
            \<and> \<not> list_ex is_send pre \<and> (list_ex is_send post \<longleftrightarrow> notifier self))
      \<and> (\<forall>cs. run L self (c\<lparr>delivery := outcome\<rparr> # cs) =
            (case run L self' cs of (e, self'', trace') \<Rightarrow> (e, self'', trace @ trace')))
      \<and> (\<forall>cs. (\<forall>c2 \<in> set cs. observed_text L (element_selector self) c2 = Returned None
                   \<or> observed_text L (element_selector self) c2 = Returned (Some new_content))
            \<longrightarrow> fst (run L self' cs) = None
              \<and> previous_content (fst (snd (run L self' cs))) = Some new_content
              \<and> \<not> list_ex is_send (snd (snd (run L self' cs))))"
    unfolding Let_def eq fst_conv snd_conv
    using order loop later by (intro conjI allI impI) simp_all
qed

theorem baseline_stored_before_dispatch_witness:
  "previous_content detector_with_hello = Some ''Hello''
   \<and> response (cycle_ok 120 page_goodbye) = Returned page_goodbye
   \<and> extract_element example_library page_goodbye (element_selector detector_with_hello)
       = Returned ''<body><p>Goodbye</p></body>''
   \<and> normalize_html example_library ''<body><p>Goodbye</p></body>'' = Returned ''Goodbye''
   \<and> ''Goodbye'' \<noteq> ''Hello''
   \<and> fst (check_for_changes example_library detector_with_hello
         (cycle_undelivered 120 page_goodbye)) = Returned True
   \<and> previous_content (fst (snd (check_for_changes example_library detector_with_hello
         (cycle_undelivered 120 page_goodbye)))) = Some ''Goodbye''
   \<and> fst (run example_library
         (fst (snd (check_for_changes example_library detector_with_hello
            (cycle_undelivered 120 page_goodbye))))
         [cycle_ok 180 page_goodbye]) = None
   \<and> \<not> list_ex is_send (snd (snd (run example_library
         (fst (snd (check_for_changes example_library detector_with_hello
            (cycle_undelivered 120 page_goodbye))))
         [cycle_ok 180 page_goodbye])))"
proof -
  let ?outcome = "Raised (OtherError ''503 Service Unavailable'') :: unit outcome"
  let ?r = "check_for_changes example_library detector_with_hello (cycle_undelivered 120 page_goodbye)"
  have h1: "previous_content detector_with_hello = Some ''Hello''"
    by (simp add: detector_with_hello_def)
  have h2: "response (cycle_ok 120 page_goodbye) = Returned page_goodbye"
    by (simp add: cycle_ok_def)
  have h3: "extract_element example_library page_goodbye (element_selector detector_with_hello)
       = Returned ''<body><p>Goodbye</p></body>''"
    by (simp add: detector_with_hello_def fresh_detector_def extract_page_goodbye)
  have h4: "normalize_html example_library ''<body><p>Goodbye</p></body>'' = Returned ''Goodbye''"
    by (rule normalize_body_goodbye)
  have h5: "''Goodbye'' \<noteq> ''Hello''" by simp
  have c: "(cycle_ok 120 page_goodbye)\<lparr>delivery := ?outcome\<rparr> = cycle_undelivered 120 page_goodbye"
    by (simp add: cycle_ok_def cycle_undelivered_def)
  have obs: "observed_text example_library (element_selector detector_with_hello)
       (cycle_ok 180 page_goodbye) = Returned (Some ''Goodbye'')"
    by (simp add: observed_text_def cycle_ok_def detector_with_hello_def fresh_detector_def
        extract_page_goodbye normalize_body_goodbye)
  note T = baseline_stored_before_dispatch [OF h1 h2 h3 h4 h5, THEN spec, of ?outcome]
  from T have A: "fst ?r = Returned True \<and> previous_content (fst (snd ?r)) = Some ''Goodbye''"
    by (simp add: Let_def c)
  from T have B: "\<forall>cs. (\<forall>c2 \<in> set cs.
          observed_text example_library (element_selector detector_with_hello) c2 = Returned None
        \<or> observed_text example_library (element_selector detector_with_hello) c2
            = Returned (Some ''Goodbye''))
        \<longrightarrow> fst (run example_library (fst (snd ?r)) cs) = None
          \<and> previous_content (fst (snd (run example_library (fst (snd ?r)) cs))) = Some ''Goodbye''
          \<and> \<not> list_ex is_send (snd (snd (run example_library (fst (snd ?r)) cs)))"
    by (simp add: Let_def c)
  from B[rule_format, of "[cycle_ok 180 page_goodbye]"] obs
  have C: "fst (run example_library (fst (snd ?r)) [cycle_ok 180 page_goodbye]) = None
      \<and> \<not> list_ex is_send (snd (snd (run example_library (fst (snd ?r)) [cycle_ok 180 page_goodbye])))"
    by simp
  show ?thesis using h1 h2 h3 h4 h5 A C by simp
qed

section \<open>Properties of extract_element\<close>

lemma split_not_empty: "split sep s \<noteq> []"
  by (induction s) (auto split: list.splits)

lemma split_segments_without_separator: "seg \<in> set (split sep s) \<Longrightarrow> sep \<notin> set seg"
  by (induction s arbitrary: seg) (auto split: list.splits if_splits)

lemma join_split: "join [sep] (split sep s) = s"
proof (induction s)
  case Nil
  then show ?case by simp
next
  case (Cons c s)
  obtain seg segs where sp: "split sep s = seg # segs"
    using split_not_empty[of sep s] by (cases "split sep s") auto
  show ?case
  proof (cases "c = sep")
    case True
    then show ?thesis using Cons sp by simp
  next
    case False
    then show ?thesis using Cons sp by (cases segs) simp_all
  qed
qed

lemma selectors_of_trim_then_drop:
  "selectors_of selector_path =
     filter (\<lambda>s. s \<noteq> []) (map strip (split CHR ''|'' selector_path))"
  by (simp add: selectors_of_def filter_map comp_def)

lemma apply_selectors_matched:
  assumes "length elements = length matched"
    and "\<forall>k < length matched.
           select_one L ((root # elements) ! k) (matched ! k) = Returned (Some (elements ! k))"
  shows "apply_selectors L p root (matched @ rest) =
           apply_selectors L p (last (root # elements)) rest"
  using assms
proof (induction matched arbitrary: root elements)
  case Nil
  then show ?case by simp
next
  case (Cons m matched)
  then obtain e es where el: "elements = e # es" by (cases elements) auto
  have first: "select_one L root m = Returned (Some e)"
    using Cons.prems(2)[rule_format, of 0] el by simp
  have rest: "\<forall>k < length matched. select_one L ((e # es) ! k) (matched ! k) = Returned (Some (es ! k))"
  proof (intro allI impI)
    fix k assume "k < length matched"
    then show "select_one L ((e # es) ! k) (matched ! k) = Returned (Some (es ! k))"
      using Cons.prems(2)[rule_format, of "Suc k"] el by simp
  qed
  have "length es = length matched" using Cons.prems(1) el by simp
  from Cons.IH[OF this rest] first el show ?case by simp
qed

lemma apply_selectors_all_matched:
  assumes "length elements = length matched"
    and "\<forall>k < length matched.
           select_one L ((root # elements) ! k) (matched ! k) = Returned (Some (elements ! k))"
  shows "apply_selectors L p root matched = Returned (last (root # elements))"
  using apply_selectors_matched[OF assms, of p "[]"] by simp

text \<open>
  C4. With a selector path that is not blank, the path is split on \<open>|\<close>, every
  segment is trimmed and the empty ones are dropped. When the selectors before
  \<open>failing\<close> match one after the other, each inside the element the one before it
  found (the first inside the parsed document \<open>soup\<close>), and \<open>failing\<close> finds nothing
  inside the last of these elements, \<open>extract_element\<close> raises the ValueError whose
  message names \<open>failing\<close> and the whole path; it returns no markup.
\<close>

theorem extract_element_not_found:
  assumes "strip selector_path \<noteq> []"
    and "parse L html_content = Returned soup"
    and "filter (\<lambda>s. s \<noteq> []) (map strip (split CHR ''|'' selector_path))
           = matched @ failing # remaining"
    and "length elements = length matched"
    and "\<forall>k < length matched.
           select_one L ((soup # elements) ! k) (matched ! k) = Returned (Some (elements ! k))"
    and "select_one L (last (soup # elements)) failing = Returned None"
  shows "extract_element L html_content selector_path =
           Raised (ValueError (''Element not found for selector '' @ [CHR 0x27] @ failing
             @ [CHR 0x27] @ '' in path '' @ [CHR 0x27] @ selector_path @ [CHR 0x27]))"
proof -
  have nonblank: "\<not> (selector_path = [] \<or> strip selector_path = [])"
    using assms(1) by (auto simp: strip_def rstrip_def lstrip_def)
  have sel: "selectors_of selector_path = matched @ failing # remaining"
    using assms(3) by (simp add: selectors_of_trim_then_drop)
  have "apply_selectors L selector_path soup (matched @ failing # remaining)
      = apply_selectors L selector_path (last (soup # elements)) (failing # remaining)"
    by (rule apply_selectors_matched[OF assms(4,5)])
  also have "\<dots> = Raised (ValueError (not_found_message failing selector_path))"
    using assms(6) by simp
  finally show ?thesis
    using nonblank sel assms(2) by (simp add: extract_element_def not_found_message_def)
qed

lemma parse_page_two_divs: "parse example_library page_two_divs = Returned soup_two_divs"
  by code_simp

lemma select_a_in_two_divs: "select_one example_library soup_two_divs ''#a'' = Returned (Some div_a)"
  by code_simp

lemma select_b_in_div_a: "select_one example_library div_a ''#b'' = Returned None"
  by code_simp

lemma selectors_a_b:
  "filter (\<lambda>s. s \<noteq> []) (map strip (split CHR ''|'' ''#a|#b'')) = [''#a'', ''#b'']"
  by code_simp

lemma strip_a_b: "strip ''#a|#b'' \<noteq> []"
  by code_simp

theorem extract_element_not_found_witness:
  "strip ''#a|#b'' \<noteq> []
   \<and> parse example_library page_two_divs = Returned soup_two_divs
   \<and> filter (\<lambda>s. s \<noteq> []) (map strip (split CHR ''|'' ''#a|#b'')) = [''#a''] @ ''#b'' # []
   \<and> length [div_a] = length [''#a'']
   \<and> select_one example_library soup_two_divs ''#a'' = Returned (Some div_a)
   \<and> select_one example_library div_a ''#b'' = Returned None
   \<and> extract_element example_library page_two_divs ''#a|#b'' =
       Raised (ValueError (''Element not found for selector '' @ [CHR 0x27] @ ''#b''
         @ [CHR 0x27] @ '' in path '' @ [CHR 0x27] @ ''#a|#b'' @ [CHR 0x27]))"
proof -
  have h1: "strip ''#a|#b'' \<noteq> []" by (rule strip_a_b)
  have h2: "filter (\<lambda>s. s \<noteq> []) (map strip (split CHR ''|'' ''#a|#b'')) = [''#a''] @ ''#b'' # []"
    unfolding selectors_a_b by simp
  have h3: "length [div_a] = length [''#a'']" by simp
  have h4: "\<forall>k < length [''#a''].
         select_one example_library ((soup_two_divs # [div_a]) ! k) ([''#a''] ! k)
           = Returned (Some ([div_a] ! k))"
    by (simp add: select_a_in_two_divs)
  have h5: "select_one example_library (last (soup_two_divs # [div_a])) ''#b'' = Returned None"
    by (simp add: select_b_in_div_a)
  from extract_element_not_found [OF h1 parse_page_two_divs h2 h3 h4 h5] h1 h2 h3 show ?thesis
    by (simp add: parse_page_two_divs select_a_in_two_divs select_b_in_div_a)
qed

subsection \<open>Blank selector paths\<close>

lemma find_in_append:
  "List.find P (xs @ ys) = (case List.find P xs of None \<Rightarrow> List.find P ys | Some x \<Rightarrow> Some x)"
  by (induction xs) auto

text \<open>\<open>find\<close> walks the tree; what it returns is the first tag of that name in the list
  of all tags in document order.\<close>

lemma find_in_is_first_tag:
  "find_in name ns = List.find (\<lambda>t. tag_name t = name) (tags_of ns)"
  by (induction name ns rule: find_in.induct) (auto simp: find_in_append split: option.splits)

lemma find_tag_is_spec_body: "find_tag soup ''body'' = spec_body_element soup"
  by (simp add: find_tag_def spec_body_element_def find_in_is_first_tag)

lemma spec_body_element_is_body_tag:
  "spec_body_element soup = Some body \<Longrightarrow> \<exists>i a cs. body = Tag i ''body'' a cs"
proof -
  assume "spec_body_element soup = Some body"
  then have n: "tag_name body = ''body''"
    by (auto simp: spec_body_element_def find_Some_iff)
  then show ?thesis by (cases body) auto
qed

lemma strip_blanks: "strip ''   '' = []"
  by code_simp

text \<open>
  C5. The parser runs before the selector path is looked at, and it rejects some
  markup: on \<open><body><![x]><p>x</p></body>\<close> with an empty selector path
  \<open>extract_element\<close> raises the parser's exception; it returns neither the body's
  markup nor the input.
\<close>

theorem extract_element_blank_path_rejected_markup:
  "extract_element example_library page_rejected [] = Raised (rejected_markup ''x'')"
  by code_simp

text \<open>
  C5, amended. With an empty or all-whitespace selector path and markup that the
  parser accepts, \<open>extract_element\<close> returns \<open>str\<close> of the document's body element,
  the first tag named \<open>body\<close> in document order (of the tag itself, not of its children
  only), and the input string unchanged when the document has no such tag. When the
  parser rejects the markup, its exception leaves \<open>extract_element\<close>.
\<close>

theorem extract_element_blank_path:
  "strip selector_path = [] \<Longrightarrow>
     extract_element L html_content selector_path =
       (case parse L html_content of
          Raised e \<Rightarrow> Raised e
        | Returned soup \<Rightarrow>
            (case spec_body_element soup of
               None \<Rightarrow> Returned html_content
             | Some body \<Rightarrow> Returned (str L body)))
     \<and> (\<forall>soup body. spec_body_element soup = Some body \<longrightarrow>
           (\<exists>i a cs. body = Tag i ''body'' a cs))"
  using spec_body_element_is_body_tag
  by (auto simp: extract_element_def find_tag_is_spec_body split: outcome.splits)

lemma parse_page_html_hello:
  "parse example_library page_html_hello =
     Returned (Tag () ''[document]'' []
       [Tag () ''html'' [] [Tag () ''body'' [] [Tag () ''p'' [] [NavigableString ''Hello'']]]])"
  by code_simp

lemma body_of_page_html_hello:
  "spec_body_element (Tag () ''[document]'' []
       [Tag () ''html'' [] [Tag () ''body'' [] [Tag () ''p'' [] [NavigableString ''Hello'']]]])
     = Some (Tag () ''body'' [] [Tag () ''p'' [] [NavigableString ''Hello'']])"
  by code_simp

lemma str_body_hello:
  "str example_library (Tag () ''body'' [] [Tag () ''p'' [] [NavigableString ''Hello'']])
     = ''<body><p>Hello</p></body>''"
  by code_simp

lemma parse_page_break:
  "parse example_library page_break =
     Returned (Tag () ''[document]'' [] [Tag () ''br'' [] [], NavigableString ''x''])"
  by code_simp

lemma body_of_page_break:
  "spec_body_element (Tag () ''[document]'' [] [Tag () ''br'' [] [], NavigableString ''x'']) = None"
  by code_simp

lemma str_page_break:
  "str example_library (Tag () ''[document]'' [] [Tag () ''br'' [] [], NavigableString ''x''])
     = ''<br/>x''"
  by code_simp

theorem extract_element_blank_path_witness:
  "strip ''   '' = []
   \<and> extract_element example_library page_html_hello ''   '' = Returned ''<body><p>Hello</p></body>''
   \<and> page_html_hello \<noteq> ''<body><p>Hello</p></body>''
   \<and> extract_element example_library page_break ''   '' = Returned ''<br>x''
   \<and> str example_library (Tag () ''[document]'' [] [Tag () ''br'' [] [], NavigableString ''x''])
       \<noteq> ''<br>x''"
proof -
  have a: "extract_element example_library page_html_hello ''   '' = Returned ''<body><p>Hello</p></body>''"
    using extract_element_blank_path [OF strip_blanks, THEN conjunct1, of example_library page_html_hello]
    by (simp only: parse_page_html_hello body_of_page_html_hello str_body_hello
        outcome.case option.case)
  have b: "extract_element example_library page_break ''   '' = Returned ''<br>x''"
    using extract_element_blank_path [OF strip_blanks, THEN conjunct1, of example_library page_break]
    by (simp only: parse_page_break body_of_page_break outcome.case option.case)
      (simp add: page_break_def)
  show ?thesis
    using a b strip_blanks by (simp add: str_page_break) (simp add: page_html_hello_def)
qed

subsection \<open>Selector paths with blank segments only\<close>

text \<open>
  C10. The same markup is rejected by the parser when the selector path is \<open>|\<close>:
  \<open>extract_element\<close> raises and does not return the whole document.
\<close>

theorem extract_element_blank_segments_rejected_markup:
  "extract_element example_library page_rejected ''|'' = Raised (rejected_markup ''x'')"
  by code_simp

text \<open>
  C10, amended. With a selector path that is not blank but whose segments are all
  blank once split on \<open>|\<close> and trimmed, such as \<open>|\<close> or \<open> | \<close>, and markup that the
  parser accepts, no selector is applied and \<open>extract_element\<close> returns \<open>str\<close> of the
  whole parsed document: neither the body tag's markup nor an error. When the parser
  rejects the markup, its exception leaves \<open>extract_element\<close>.
\<close>

theorem extract_element_blank_segments:
  assumes "strip selector_path \<noteq> []"
    and "\<forall>seg \<in> set (split CHR ''|'' selector_path). strip seg = []"
  shows "selectors_of selector_path = []
       \<and> extract_element L html_content selector_path =
           (case parse L html_content of
              Raised e \<Rightarrow> Raised e
            | Returned soup \<Rightarrow> Returned (str L soup))"
proof -
  have nonblank: "\<not> (selector_path = [] \<or> strip selector_path = [])"
    using assms(1) by (auto simp: strip_def rstrip_def lstrip_def)
  have none: "selectors_of selector_path = []"
    using assms(2) by (simp add: selectors_of_def filter_empty_conv)
  show ?thesis
    using nonblank none by (simp add: extract_element_def split: outcome.splits)
qed

lemma strip_bar: "strip ''|'' \<noteq> [] \<and> strip '' | '' \<noteq> []"
  by code_simp

lemma segments_bar:
  "(\<forall>seg \<in> set (split CHR ''|'' ''|''). strip seg = [])
   \<and> (\<forall>seg \<in> set (split CHR ''|'' '' | ''). strip seg = [])"
  by code_simp

lemma str_page_html_hello:
  "str example_library (Tag () ''[document]'' []
       [Tag () ''html'' [] [Tag () ''body'' [] [Tag () ''p'' [] [NavigableString ''Hello'']]]])
     = ''<html><body><p>Hello</p></body></html>''"
  by code_simp

theorem extract_element_blank_segments_witness:
  "strip ''|'' \<noteq> [] \<and> map strip (split CHR ''|'' ''|'') = [[], []]
   \<and> strip '' | '' \<noteq> [] \<and> map strip (split CHR ''|'' '' | '') = [[], []]
   \<and> extract_element example_library page_html_hello ''|''
       = Returned ''<html><body><p>Hello</p></body></html>''
   \<and> extract_element example_library page_html_hello '' | ''
       = Returned ''<html><body><p>Hello</p></body></html>''
   \<and> extract_element example_library page_break ''|'' = Returned ''<br/>x''"
proof -
  have a1: "strip ''|'' \<noteq> []" and b1: "strip '' | '' \<noteq> []"
    using strip_bar by simp_all
  have a2: "\<forall>seg \<in> set (split CHR ''|'' ''|''). strip seg = []"
    and b2: "\<forall>seg \<in> set (split CHR ''|'' '' | ''). strip seg = []"
    using segments_bar by simp_all
  have c: "map strip (split CHR ''|'' ''|'') = [[], []]"
    "map strip (split CHR ''|'' '' | '') = [[], []]"
    by code_simp+
  from extract_element_blank_segments [OF a1 a2, of example_library page_html_hello]
    extract_element_blank_segments [OF b1 b2, of example_library page_html_hello]
    extract_element_blank_segments [OF a1 a2, of example_library page_break]
    a1 b1 c
  show ?thesis
    by (simp only: parse_page_html_hello parse_page_break str_page_html_hello str_page_break
        outcome.case simp_thms)
qed

section \<open>Properties of normalize_html\<close>

lemma decompose_remove_ids: "decompose h ns = remove_ids {h} ns"
  by (induction h ns rule: decompose.induct) auto

lemma remove_ids_empty: "remove_ids {} ns = ns"
  by (induction ns rule: tag_ids.induct) auto

lemma remove_ids_twice: "remove_ids S (remove_ids T ns) = remove_ids (S \<union> T) ns"
  by (induction T ns rule: remove_ids.induct) auto

text \<open>The loop over the found tags removes them all, in whatever order they come.\<close>

lemma foldl_decompose:
  "foldl (\<lambda>tree hidden_element. decompose hidden_element tree) ns hs = remove_ids (set hs) ns"
proof (induction hs arbitrary: ns)
  case Nil
  then show ?case by (simp add: remove_ids_empty)
next
  case (Cons h hs)
  then show ?case by (simp add: decompose_remove_ids remove_ids_twice Un_commute)
qed

lemma remove_ids_cong:
  "(\<And>x. x \<in> set (tag_ids ns) \<Longrightarrow> x \<in> S \<longleftrightarrow> x \<in> T) \<Longrightarrow> remove_ids S ns = remove_ids T ns"
  by (induction S ns rule: remove_ids.induct) auto

lemma find_all_hidden_subset: "set (find_all_hidden ns) \<subseteq> set (tag_ids ns)"
  by (induction ns rule: find_all_hidden.induct) auto

text \<open>Where every tag has its own identity, removing the found tags is removing the
  hidden elements with their subtrees.\<close>

lemma remove_found_hidden:
  "distinct (tag_ids ns) \<Longrightarrow> remove_ids (set (find_all_hidden ns)) ns = spec_remove_hidden ns"
proof (induction ns rule: spec_remove_hidden.induct)
  case (4 i n a cs ns)
  let ?S = "set (find_all_hidden (Tag i n a cs # ns))"
  have dc: "distinct (tag_ids cs)" and dn: "distinct (tag_ids ns)"
    and ic: "i \<notin> set (tag_ids cs)" and "in": "i \<notin> set (tag_ids ns)"
    and disj: "set (tag_ids cs) \<inter> set (tag_ids ns) = {}"
    using "4.prems" by auto
  have sc: "set (find_all_hidden cs) \<subseteq> set (tag_ids cs)"
    and sn: "set (find_all_hidden ns) \<subseteq> set (tag_ids ns)"
    by (rule find_all_hidden_subset)+
  have n: "remove_ids ?S ns = remove_ids (set (find_all_hidden ns)) ns"
    by (rule remove_ids_cong) (use sc sn disj "in" in auto)
  have c: "remove_ids ?S cs = remove_ids (set (find_all_hidden cs)) cs"
    by (rule remove_ids_cong) (use sc sn disj ic in auto)
  show ?case
  proof (cases "is_hidden a")
    case True
    then show ?thesis using n "4.IH"(1) dn by simp
  next
    case False
    have "i \<notin> ?S" using False sc sn ic "in" by auto
    then show ?thesis using False n c "4.IH"(2,3) dc dn by simp
  qed
qed auto

text \<open>The numbering gives the tags the numbers from the start value on, in document
  order: no two tags share one.\<close>

lemma number_ids:
  fixes t :: "'a node" and ts :: "'a node list"
  shows "tag_ids [fst (number k t)] = [k ..< snd (number k t)] \<and> k \<le> snd (number k t)"
    and "tag_ids (fst (number_list k ts)) = [k ..< snd (number_list k ts)]
         \<and> k \<le> snd (number_list k ts)"
proof (induction k t and k ts rule: number_number_list.induct)
  case (3 k i n a cs)
  then show ?case by (auto split: prod.splits simp: upt_conv_Cons)
next
  case (5 k c cs)
  obtain c' k1 where c: "number k c = (c', k1)" by force
  obtain cs' k2 where cs: "number_list k1 cs = (cs', k2)" by force
  have 1: "tag_ids [c'] = [k..<k1]" "k \<le> k1" using 5(1) c by auto
  have 2: "tag_ids cs' = [k1..<k2]" "k1 \<le> k2" using 5(2)[OF c[symmetric]] cs by auto
  have app: "tag_ids (c' # cs') = tag_ids [c'] @ tag_ids cs'"
    by (cases c') auto
  have "[k..<k1] @ [k1..<k2] = [k..<k2]" using 1(2) 2(2)
    by (metis le_Suc_ex upt_add_eq_append)
  then show ?case using c cs 1 2 app by simp
qed auto

lemma all_strings_append: "all_strings (xs @ ys) = all_strings xs @ all_strings ys"
  by (induction xs rule: all_strings.induct) auto

lemma spec_remove_hidden_Cons:
  "spec_remove_hidden (x # xs) = spec_remove_hidden [x] @ spec_remove_hidden xs"
  by (cases x) auto

text \<open>The numbers play no part in what text is left.\<close>

lemma number_keeps_strings:
  fixes t :: "'a node" and ts :: "'a node list"
  shows "all_strings (spec_remove_hidden [fst (number k t)]) = all_strings (spec_remove_hidden [t])"
    and "all_strings (spec_remove_hidden (fst (number_list k ts))) = all_strings (spec_remove_hidden ts)"
proof (induction k t and k ts rule: number_number_list.induct)
  case (3 k i n a cs)
  then show ?case by (auto split: prod.splits)
next
  case (5 k c cs)
  obtain c' k1 where c: "number k c = (c', k1)" by force
  obtain cs' k2 where cs: "number_list k1 cs = (cs', k2)" by force
  have 1: "all_strings (spec_remove_hidden [c']) = all_strings (spec_remove_hidden [c])"
    using 5(1) c by simp
  have 2: "all_strings (spec_remove_hidden cs') = all_strings (spec_remove_hidden cs)"
    using 5(2)[OF c[symmetric]] cs by simp
  show ?case
    using c cs 1 2
    by (simp add: spec_remove_hidden_Cons[of c' cs'] spec_remove_hidden_Cons[of c cs]
        all_strings_append del: spec_remove_hidden.simps)
qed auto

lemma no_hidden_left:
  "list_all (\<lambda>t. \<not> is_hidden (tag_attrs t)) (tags_of (spec_remove_hidden ns))"
  by (induction ns rule: spec_remove_hidden.induct) auto

lemma normalize_html_refines_spec:
  "normalize_html L html_content =
     (case parse L html_content of
        Raised e \<Rightarrow> Raised e
      | Returned soup \<Rightarrow> Returned (get_text '' '' (spec_remove_hidden (contents soup))))"
proof (cases "parse L html_content")
  case (Raised e)
  then show ?thesis by (simp add: normalize_html_def)
next
  case (Returned parsed)
  let ?soup = "fst (number_list 0 (contents parsed))"
  have "distinct (tag_ids ?soup)"
    using number_ids(2)[of 0 "contents parsed"] by simp
  then have "foldl (\<lambda>tree hidden_element. decompose hidden_element tree) ?soup (find_all_hidden ?soup)
      = spec_remove_hidden ?soup"
    by (simp add: foldl_decompose remove_found_hidden)
  then show ?thesis
    using Returned
    by (simp add: normalize_html_def get_text_def Let_def number_keeps_strings(2))
qed

lemma normalize_hidden_input_example:
  "normalize_html example_library ''<input type=\"hidden\" value=\"v\"><p>Visible</p>''
     = Returned ''Visible''"
  by code_simp

text \<open>
  C6. For every markup and every parser, what \<open>normalize_html\<close> returns when the parser
  returns a tree is the text of that tree from which every element whose \<open>type\<close>
  attribute equals \<open>hidden\<close> has been removed together with its subtree: the loop over
  the found tags leaves no such element, whatever the tree, and the text is taken after
  the removal. An exception of the parser leaves \<open>normalize_html\<close> as it is. In
  particular \<open><input type="hidden" value="v"><p>Visible</p>\<close> normalizes to \<open>Visible\<close>.
\<close>

theorem normalize_html_removes_hidden:
  "normalize_html L html_content =
     (case parse L html_content of
        Raised e \<Rightarrow> Raised e
      | Returned soup \<Rightarrow> Returned (get_text '' '' (spec_remove_hidden (contents soup))))
   \<and> list_all (\<lambda>t. \<not> is_hidden (tag_attrs t)) (tags_of (spec_remove_hidden ns))
   \<and> normalize_html example_library ''<input type=\"hidden\" value=\"v\"><p>Visible</p>''
       = Returned ''Visible''"
  using normalize_html_refines_spec[of L html_content] no_hidden_left[of ns]
    normalize_hidden_input_example
  by simp

subsection \<open>White space in the normalized text\<close>

lemma lstrip_hd: "lstrip s \<noteq> [] \<Longrightarrow> \<not> isspace (hd (lstrip s))"
  unfolding lstrip_def by (rule hd_dropWhile)

lemma rstrip_prefix: "s = rstrip s @ rev (takeWhile isspace (rev s))"
  unfolding rstrip_def rev_append[symmetric] takeWhile_dropWhile_id by simp

lemma rstrip_hd: "rstrip s \<noteq> [] \<Longrightarrow> hd (rstrip s) = hd s"
  using rstrip_prefix[of s] by (metis hd_append2)

lemma rstrip_last: "rstrip s \<noteq> [] \<Longrightarrow> \<not> isspace (last (rstrip s))"
proof -
  assume ne: "rstrip s \<noteq> []"
  then have d: "dropWhile isspace (rev s) \<noteq> []" by (simp add: rstrip_def)
  have "last (rstrip s) = hd (dropWhile isspace (rev s))"
    using d by (simp add: rstrip_def last_rev)
  then show ?thesis using hd_dropWhile[OF d] by simp
qed

lemma strip_ends:
  assumes "strip s \<noteq> []"
  shows "\<not> isspace (hd (strip s)) \<and> \<not> isspace (last (strip s))"
proof -
  have l: "lstrip s \<noteq> []" using assms by (auto simp: strip_def rstrip_def)
  have "hd (strip s) = hd (lstrip s)" using assms rstrip_hd[of "lstrip s"] by (simp add: strip_def)
  then show ?thesis using lstrip_hd[OF l] rstrip_last[of "lstrip s"] assms by (simp add: strip_def)
qed

lemma strip_fixed:
  assumes "s = [] \<or> (\<not> isspace (hd s) \<and> \<not> isspace (last s))"
  shows "strip s = s"
proof (cases s rule: rev_cases)
  case Nil
  then show ?thesis by (simp add: strip_def lstrip_def rstrip_def)
next
  case (snoc ys y)
  then have h: "\<not> isspace (hd s)" and l: "\<not> isspace y" using assms by auto
  have "s \<noteq> []" using snoc by simp
  then have 1: "lstrip s = s" using h by (cases s) (simp_all add: lstrip_def)
  have "dropWhile isspace (rev s) = rev s" using l snoc by simp
  then show ?thesis using 1 by (simp add: strip_def rstrip_def)
qed

lemma join_ends:
  assumes "ps \<noteq> []" and "\<forall>p \<in> set ps. p \<noteq> []"
  shows "join sep ps \<noteq> [] \<and> hd (join sep ps) = hd (hd ps) \<and> last (join sep ps) = last (last ps)"
  using assms
proof (induction sep ps rule: join.induct)
  case (3 sep x y ys)
  then show ?case by (auto simp: last_append)
qed auto

text \<open>What does hold of the white space: the normalized text has none at either end.\<close>

lemma normalize_html_stripped:
  assumes "normalize_html L html_content = Returned y"
  shows "strip y = y"
proof -
  obtain soup where p: "parse L html_content = Returned soup"
    using assms by (cases "parse L html_content") (simp_all add: normalize_html_def)
  let ?ps = "filter (\<lambda>s. s \<noteq> [])
     (map strip (all_strings (spec_remove_hidden (contents soup))))"
  have n: "y = join '' '' ?ps"
    using assms p by (simp add: normalize_html_refines_spec get_text_def)
  show ?thesis
  proof (cases "?ps = []")
    case True
    then show ?thesis using n by (simp add: strip_fixed)
  next
    case False
    have ne: "\<forall>p \<in> set ?ps. p \<noteq> []" by simp
    have ends: "\<not> isspace (hd p) \<and> \<not> isspace (last p)" if "p \<in> set ?ps" for p
      using that strip_ends by auto
    have "hd ?ps \<in> set ?ps" "last ?ps \<in> set ?ps"
      by (rule hd_in_set[OF False], rule last_in_set[OF False])
    then have "\<not> isspace (hd (hd ?ps))" "\<not> isspace (last (last ?ps))" using ends by blast+
    then have "\<not> isspace (hd (join '' '' ?ps)) \<and> \<not> isspace (last (join '' '' ?ps))"
      using join_ends[OF False ne, of "'' ''"] by simp
    then show ?thesis using n by (simp add: strip_fixed)
  qed
qed

text \<open>
  C7. The markup \<open>a  b\<close>, one text node with two spaces inside, comes back unchanged:
  \<open>get_text\<close> strips each text node at its ends and joins the nodes with one space, but
  leaves the white space inside a node as it is. So the normalized text can hold a run
  of two white space characters.
\<close>

theorem normalize_html_keeps_inner_whitespace:
  "normalize_html example_library ''a  b'' = Returned ''a  b''"
  by code_simp

text \<open>
  C8. Normalizing is not idempotent: the text of \<open>&lt;b&gt;x&lt;/b&gt;\<close> is
  \<open><b>x</b>\<close>, which read as markup is a tag, whose text is \<open>x\<close>.
\<close>

theorem normalize_html_not_idempotent:
  "normalize_html example_library ''&lt;b&gt;x&lt;/b&gt;'' = Returned ''<b>x</b>''
   \<and> normalize_html example_library ''<b>x</b>'' = Returned ''x''
   \<and> normalize_html example_library ''<b>x</b>''
       \<noteq> normalize_html example_library ''&lt;b&gt;x&lt;/b&gt;''"
  by code_simp

subsection \<open>Normalizing text that holds no markup\<close>

text \<open>Whatever the parser, a normalized text that it reads back as one text node (or as
  the empty document, when the text is empty) is normalized to itself.\<close>

lemma normalize_html_of_plain_text:
  assumes "normalize_html L x = Returned y"
    and "parse L y = Returned soup"
    and "contents soup = (if y = [] then [] else [NavigableString y])"
  shows "normalize_html L y = Returned y"
proof -
  have "normalize_html L y = Returned (get_text '' '' (spec_remove_hidden (contents soup)))"
    using assms(2) by (simp add: normalize_html_refines_spec)
  also have "get_text '' '' (spec_remove_hidden (contents soup)) = y"
    using assms(3) normalize_html_stripped[OF assms(1)] by (simp add: get_text_def)
  finally show ?thesis .
qed

text \<open>The tokenizer of the parser model hands text without \<open><\<close> and \<open>&\<close> to the tree
  builder in one piece.\<close>

lemma tokenize_plain_text:
  assumes "CHR ''<'' \<notin> set y" and "CHR ''&'' \<notin> set y" and "y \<noteq> []"
  shows "tokenize y = Some [Data y]"
proof -
  obtain c rest where y: "y = c # rest" using assms(3) by (cases y) auto
  have all: "\<forall>c \<in> set y. is_text_char c"
    using assms(1,2) by (auto simp: is_text_char_def)
  then have t: "takeWhile is_text_char y = y" and d: "dropWhile is_text_char y = []"
    by simp_all
  have c: "c \<noteq> CHR ''&''" "c \<noteq> CHR ''<''" using assms(1,2) y by auto
  have e: "tokenize [] = Some []" by (subst tokenize.simps) simp
  have "tokenize (c # rest)
      = map_option (Cons (Data (takeWhile is_text_char (c # rest))))
          (tokenize (dropWhile is_text_char (c # rest)))"
    by (subst tokenize.simps) (simp add: c)
  then show ?thesis using t d e y by simp
qed

text \<open>The tree builder keeps it as one string, since a stripped text that is not empty
  does not consist of white space.\<close>

lemma html_parser_plain_text:
  assumes "CHR ''<'' \<notin> set y" and "CHR ''&'' \<notin> set y" and "strip y = y"
  shows "html_parser y =
    Some (Returned (Tag () ROOT_TAG_NAME [] (if y = [] then [] else [NavigableString y])))"
proof (cases "y = []")
  case True
  have "tokenize [] = Some []" by (subst tokenize.simps) simp
  then show ?thesis using True by (simp add: html_parser_def endData_def)
next
  case False
  have "strip y \<noteq> []" using False assms(3) by simp
  then have "\<not> isspace (hd y)" using strip_ends[of y] assms(3) by simp
  then have "hd y \<notin> set ASCII_SPACES" by (auto simp: isspace_def ASCII_SPACES_def)
  then have "\<not> list_all (\<lambda>c. c \<in> set ASCII_SPACES) y"
    using False by (cases y) auto
  then show ?thesis
    using False tokenize_plain_text[OF assms(1,2) False]
    by (simp add: html_parser_def endData_def handle_data_def Let_def)
qed

lemma parse_plain_text:
  assumes "CHR ''<'' \<notin> set y" and "CHR ''&'' \<notin> set y" and "strip y = y"
  shows "parse example_library y =
    Returned (Tag () ROOT_TAG_NAME [] (if y = [] then [] else [NavigableString y]))"
  using html_parser_plain_text[OF assms] by (simp add: example_library_def)

lemma normalize_html_of_text_without_markup:
  assumes "normalize_html example_library x = Returned y"
    and "CHR ''<'' \<notin> set y" and "CHR ''&'' \<notin> set y"
  shows "normalize_html example_library y = Returned y"
proof -
  have s: "strip y = y" by (rule normalize_html_stripped[OF assms(1)])
  show ?thesis
    by (rule normalize_html_of_plain_text[OF assms(1) parse_plain_text[OF assms(2,3) s]]) simp
qed

text \<open>
  C8, amended. Normalizing its own output gives that output again whenever the parser
  reads the output back as plain text, that is as a document that holds it as its one
  text node (or holds nothing when it is empty). The parser model of this development
  reads every normalized text in which neither \<open><\<close> nor \<open>&\<close> occurs back in that way, so
  with it normalizing such an output gives the output again.
\<close>

theorem normalize_html_idempotent_on_plain_text:
  "(normalize_html L x = Returned y \<longrightarrow> parse L y = Returned soup
      \<longrightarrow> contents soup = (if y = [] then [] else [NavigableString y])
      \<longrightarrow> normalize_html L y = Returned y)
   \<and> (normalize_html example_library x' = Returned y'
      \<longrightarrow> CHR ''<'' \<notin> set y' \<longrightarrow> CHR ''&'' \<notin> set y'
      \<longrightarrow> normalize_html example_library y' = Returned y')"
  using normalize_html_of_plain_text[of L x y soup]
    normalize_html_of_text_without_markup[of x' y']
  by blast

lemma normalize_paragraph: "normalize_html example_library ''<p> a  b </p>'' = Returned ''a  b''"
  by code_simp

lemma parse_inner_whitespace:
  "parse example_library ''a  b'' = Returned (Tag () ''[document]'' [] [NavigableString ''a  b''])"
  by code_simp

theorem normalize_html_idempotent_on_plain_text_witness:
  "normalize_html example_library ''<p> a  b </p>'' = Returned ''a  b''
   \<and> parse example_library ''a  b'' = Returned (Tag () ''[document]'' [] [NavigableString ''a  b''])
   \<and> CHR ''<'' \<notin> set ''a  b'' \<and> CHR ''&'' \<notin> set ''a  b''
   \<and> normalize_html example_library ''a  b'' = Returned ''a  b''"
proof -
  have c: "contents (Tag () ''[document]'' [] [NavigableString ''a  b''])
      = (if ''a  b'' = [] then [] else [NavigableString ''a  b''])"
    by simp
  have m: "CHR ''<'' \<notin> set ''a  b''" "CHR ''&'' \<notin> set ''a  b''"
    by simp_all
  from normalize_html_idempotent_on_plain_text
      [of example_library "''<p> a  b </p>''" "''a  b''"
          "Tag () ''[document]'' [] [NavigableString ''a  b'']" "''<p> a  b </p>''" "''a  b''"]
    normalize_paragraph parse_inner_whitespace c m
  show ?thesis by blast
qed

section \<open>Properties of the diff\<close>

lemma slice_to_length: "0 \<le> n \<Longrightarrow> length (slice_to n xs) \<le> nat n"
  by (simp add: slice_to_def)

text \<open>
  C9. With \<open>max_lines = -1\<close> the bound \<open>max_lines + 1\<close> is zero lines, yet the function
  returns the marker line, here for two equal texts, whose diff is empty.
\<close>

theorem diff_lines_negative_max_lines:
  "\<not> int (length (diff_lines example_library ''Hello'' ''Hello'' (- 1))) \<le> - 1 + 1"
  by code_simp

text \<open>
  C9, amended. For every pair of texts, every \<open>unified_diff\<close> and every \<open>max_lines\<close>
  that is not negative, the text returned is the concatenation of at most
  \<open>max_lines + 1\<close> diff lines: the diff as it is when it has at most \<open>max_lines\<close>
  lines, with no marker, and otherwise its first \<open>max_lines\<close> lines followed by the
  one marker line, which states \<open>max_lines\<close>.
\<close>

theorem diff_lines_bounded:
  assumes "0 \<le> max_lines"
  shows "(let d = unified_diff L (splitlines old_content) (splitlines new_content);
              r = diff_lines L old_content new_content max_lines
          in generate_diff L old_content new_content max_lines = concat r
           \<and> int (length r) \<le> max_lines + 1
           \<and> r = (if int (length d) \<le> max_lines then d
                   else take (nat max_lines) d
                        @ [[CHR 0x0A] @ ''... (truncated, showing first '' @ str_int max_lines
                             @ '' lines)'']))"
proof -
  let ?d = "unified_diff L (splitlines old_content) (splitlines new_content)"
  have r: "diff_lines L old_content new_content max_lines =
      (if int (length ?d) \<le> max_lines then ?d
       else take (nat max_lines) ?d @ [truncation_marker max_lines])"
    using assms by (auto simp: diff_lines_def Let_def slice_to_def)
  have "int (length (diff_lines L old_content new_content max_lines)) \<le> max_lines + 1"
    using assms r by auto
  then show ?thesis
    using r by (simp add: Let_def generate_diff_def truncation_marker_def)
qed

lemma diff_hello_goodbye:
  "unified_diff example_library (splitlines ''Hello'') (splitlines ''Goodbye'') =
     [''--- Previous'', ''+++ Current'', ''@@ -1 +1 @@'', ''-Hello'', ''+Goodbye'']"
  by code_simp

lemma str_int_3: "str_int 3 = ''3''"
  by code_simp

theorem diff_lines_bounded_witness:
  "(0::int) \<le> 3 \<and> (0::int) \<le> 30
   \<and> diff_lines example_library ''Hello'' ''Goodbye'' 3 =
       [''--- Previous'', ''+++ Current'', ''@@ -1 +1 @@'',
        [CHR 0x0A] @ ''... (truncated, showing first 3 lines)'']
   \<and> diff_lines example_library ''Hello'' ''Goodbye'' 30 =
       [''--- Previous'', ''+++ Current'', ''@@ -1 +1 @@'', ''-Hello'', ''+Goodbye'']
   \<and> generate_diff example_library ''Hello'' ''Goodbye'' 30 =
       ''--- Previous+++ Current@@ -1 +1 @@-Hello+Goodbye''"
proof -
  have a: "(0::int) \<le> 3" and b: "(0::int) \<le> 30" by simp_all
  from diff_lines_bounded [OF a, of example_library "''Hello''" "''Goodbye''"]
    diff_lines_bounded [OF b, of example_library "''Hello''" "''Goodbye''"]
  show ?thesis
    by (simp add: Let_def diff_hello_goodbye str_int_3)
qed


end
